theory Spec2Isabelle
  imports Complex_Main "HOL-Library.Sublist" "HOL-Library.Word"
begin

section \<open>Data model (types.ts)\<close>

text \<open>
  \<^verbatim>\<open>interface ImageData { data: string; mimeType: string; url: string }\<close> and the
  \<^verbatim>\<open>EditorStatus\<close> enum. The strings of an image, of error messages and of toasts are
  only compared with, searched for and built from ASCII literals; they are modelled as
  \<^typ>\<open>string\<close>.
\<close>

record ImageData =
  data :: string
  mimeType :: string
  url :: string

datatype EditorStatus = IDLE | PROCESSING | SUCCESS | ERROR

section \<open>JavaScript strings\<close>

text \<open>\<^verbatim>\<open>String.prototype.includes\<close>: the argument occurs as a contiguous substring.\<close>

fun js_includes :: "string \<Rightarrow> string \<Rightarrow> bool" where
  "js_includes [] t = (t = [])"
| "js_includes (c # cs) t = (prefix t (c # cs) \<or> js_includes cs t)"

text \<open>
  The prompt the user types and the text the upstream service replies with are arbitrary
  JavaScript strings, that is, sequences of UTF-16 code units; \<open>utf16\<close> is an ASCII
  literal as such a sequence.
\<close>

type_synonym js_string = "16 word list"

definition utf16 :: "string \<Rightarrow> js_string" where
  "utf16 s = map of_char s"

text \<open>
  \<^verbatim>\<open>String.prototype.trim\<close> removes white space and line terminators from both ends.
  ECMAScript's WhiteSpace is TAB, VT, FF, ZWNBSP (U+FEFF) and the space separators of
  Unicode (SPACE, NBSP, U+1680, U+2000 to U+200A, U+202F, U+205F, U+3000); its
  LineTerminator is LF, CR, U+2028 and U+2029.
\<close>

definition isWhiteSpace :: "16 word \<Rightarrow> bool" where
  "isWhiteSpace c =
     (c \<in> set [0x0009, 0x000B, 0x000C, 0xFEFF,
               0x0020, 0x00A0, 0x1680, 0x2000, 0x2001, 0x2002, 0x2003, 0x2004, 0x2005,
               0x2006, 0x2007, 0x2008, 0x2009, 0x200A, 0x202F, 0x205F, 0x3000,
               0x000A, 0x000D, 0x2028, 0x2029])"

definition trim :: "js_string \<Rightarrow> js_string" where
  "trim s = rev (dropWhile isWhiteSpace (rev (dropWhile isWhiteSpace s)))"

text \<open>A template literal that spans several source lines, given line by line.\<close>

fun joinLines :: "js_string list \<Rightarrow> js_string" where
  "joinLines [] = []"
| "joinLines [l] = l"
| "joinLines (l # ls) = l @ 0x000A # joinLines ls"

section \<open>Errors\<close>

text \<open>
  A thrown value, as far as the program inspects it. A truthy value is given by its
  \<^verbatim>\<open>error?.status\<close>, \<^verbatim>\<open>error?.code\<close>, \<^verbatim>\<open>error?.response?.status\<close> (each \<open>Some n\<close> when it
  is the number \<open>n\<close>) and \<^verbatim>\<open>error?.message\<close> (when it is a string). A falsy value has none
  of these properties: optional chaining gives \<^verbatim>\<open>undefined\<close> for each.
\<close>

datatype falsy = Undefined | Null | FalseValue | Zero | NaN | EmptyString

datatype js_error =
  Truthy (status: "int option") (code: "int option") (response_status: "int option")
    (message: "string option")
  | Falsy falsy
where
  "status (Falsy v) = None"
| "code (Falsy v) = None"
| "response_status (Falsy v) = None"
| "message (Falsy v) = None"

definition isFalsy :: "js_error \<Rightarrow> bool" where
  "isFalsy error = (case error of Falsy v \<Rightarrow> True | Truthy s c r m \<Rightarrow> False)"

text \<open>\<^verbatim>\<open>new Error(msg)\<close>\<close>

definition Error :: "string \<Rightarrow> js_error" where
  "Error msg = Truthy None None None (Some msg)"

section \<open>services/geminiService.ts\<close>

subsection \<open>retryOperation\<close>

text \<open>
  The classification computed at the head of the \<^verbatim>\<open>catch\<close> block of
  \<^verbatim>\<open>retryOperation\<close>.
\<close>

definition messageIncludes :: "js_error \<Rightarrow> string \<Rightarrow> bool" where
  "messageIncludes error t = (case message error of None \<Rightarrow> False | Some m \<Rightarrow> js_includes m t)"

definition isQuotaError :: "js_error \<Rightarrow> bool" where
  "isQuotaError error =
     (status error = Some 429 \<or>
      code error = Some 429 \<or>
      response_status error = Some 429 \<or>
      messageIncludes error ''429'' \<or>
      messageIncludes error ''RESOURCE_EXHAUSTED'' \<or>
      messageIncludes error ''quota'')"

definition usageLimitError :: js_error where
  "usageLimitError =
     Error ''API Usage Limit Exceeded. The system is busy. Please try again in a moment.''"

text \<open>
  What one call chain of \<^verbatim>\<open>retryOperation\<close> did: how often it invoked the operation
  and the delays (in ms) it slept for, in order.
\<close>

record retry_log =
  invocations :: nat
  waits :: "int list"

definition emptyLog :: retry_log where
  "emptyLog = \<lparr>invocations = 0, waits = []\<rparr>"

text \<open>
  \<^verbatim>\<open>async function retryOperation<T>(operation, maxRetries = 2, delay = 2000)\<close>.
  The operation is effectful: \<open>operation n\<close> is the outcome of its invocation number
  \<open>n\<close> (counted from 0) within this call chain, \<open>Inl\<close> a rejection and \<open>Inr\<close> the
  value. The log is threaded through the recursion.
\<close>

fun retryOperation ::
  "(nat \<Rightarrow> js_error + 'a) \<Rightarrow> nat \<Rightarrow> int \<Rightarrow> retry_log \<Rightarrow> (js_error + 'a) \<times> retry_log" where
  "retryOperation operation maxRetries delay lg =
     (let lg' = lg\<lparr>invocations := Suc (invocations lg)\<rparr> in
      case operation (invocations lg) of
        Inr v \<Rightarrow> (Inr v, lg')
      | Inl error \<Rightarrow>
          if isQuotaError error then
            if maxRetries > 0 then
              retryOperation operation (maxRetries - 1) (delay * 2)
                (lg'\<lparr>waits := waits lg' @ [delay]\<rparr>)
            else (Inl usageLimitError, lg')
          else (Inl error, lg'))"

declare retryOperation.simps [simp del]

subsection \<open>The upstream service\<close>

text \<open>
  The request parts built by the program and the fields of the response that it reads.
  One call of \<^verbatim>\<open>ai.models.generateContent\<close> takes the model name and the parts and
  either throws or returns a response; the configuration object of each call site is a
  constant and is left out.
\<close>

datatype Part = InlineDataPart (partData: string) (partMimeType: string) | TextPart js_string

datatype Blob = Blob (blobMimeType: "string option") (blobData: string)

datatype ResponsePart = ResponsePart (inlineData: "Blob option")

datatype Content = Content (parts: "ResponsePart list option")

datatype Candidate = Candidate (content: "Content option")

datatype GenerateContentResponse =
  GenerateContentResponse (candidates: "Candidate list option")
    (responseText: "js_string option")

type_synonym GoogleGenAI = "string \<Rightarrow> Part list \<Rightarrow> js_error + GenerateContentResponse"

subsection \<open>generateSingleRequest\<close>

definition generateSingleRequest :: "GoogleGenAI \<Rightarrow> Part list \<Rightarrow> js_error + ImageData" where
  "generateSingleRequest ai ps =
     (case ai ''gemini-2.5-flash-image'' ps of
        Inl error \<Rightarrow> Inl error
      | Inr response \<Rightarrow>
          (if candidates response = None \<or> length (the (candidates response)) = 0 then
             Inl (Error ''No candidates returned from Gemini.'')
           else
             (let partsResponse =
                    (case content (the (candidates response) ! 0) of
                       None \<Rightarrow> None
                     | Some c \<Rightarrow> parts c)
              in
                (if partsResponse = None \<or> length (the partsResponse) = 0 then
                   Inl (Error ''No content parts returned.'')
                 else
                   (case find (\<lambda>p. inlineData p \<noteq> None) (the partsResponse) of
                      None \<Rightarrow> Inl (Error ''No image data found in response.'')
                    | Some imagePart \<Rightarrow>
                        (case inlineData imagePart of
                           None \<Rightarrow> Inl (Error ''No image data found in response.'')
                         | Some blob \<Rightarrow>
                             (let mime =
                                    (if blobMimeType blob = None \<or> blobMimeType blob = Some []
                                     then ''image/png'' else the (blobMimeType blob));
                                  base64Data = blobData blob;
                                  dataUrl = ''data:'' @ mime @ '';base64,'' @ base64Data
                              in Inr \<lparr>data = base64Data, mimeType = mime, url = dataUrl\<rparr>)))))))"

subsection \<open>generateOrEditImage\<close>

definition commonRules :: js_string where
  \<open>commonRules = joinLines (map utf16
     ['''',
      ''    You are a senior Visual Designer specialized in CORPORATE & WEB GRAPHICS.'',
      ''    '',
      ''    Task: Create a professional WordPress blog featured image.'',
      ''    Style rules:'',
      ''    - Clean, modern, and high-clarity professional aesthetic.'',
      ''    - Strong focal point with a balanced composition.'',
      ''    - Leave some "white space" or "copy space" for potential text overlays (like a blog title).'',
      ''    - Avoid cluttered backgrounds or distracting small elements.'',
      ''    - Use sophisticated color palettes appropriate for professional blogs (Tech, Finance, Lifestyle, Business).'',
      ''    - NO music album art aesthetics. NO lo-fi noise or intentional distortion.'',
      ''    - NO watermarks, logos, or UI elements.'',
      '''',
      ''    Technical:'',
      ''    - Output MUST be 16:9 aspect ratio.'',
      ''    - Crystal clear resolution, sharp details.'',
      ''    - Realism or high-quality professional digital art style only.'',
      ''  ''])\<close>

definition editPrompt :: "js_string \<Rightarrow> js_string" where
  "editPrompt prompt = trim (joinLines
     [utf16 '''',
      utf16 ''      '' @ commonRules,
      utf16 ''      '',
      utf16 ''      TASK: Transform this base image into a professional WordPress featured image/banner based on: '' @ prompt @ utf16 ''.'',
      utf16 ''      - Retain the core subject but enhance lighting, environment, and composition for a web banner.'',
      utf16 ''      - Ensure the final result is 16:9.'',
      utf16 ''      ''])"

definition newPrompt :: "js_string \<Rightarrow> js_string" where
  "newPrompt prompt = trim (joinLines
     [utf16 '''',
      utf16 ''      '' @ commonRules,
      utf16 ''      '',
      utf16 ''      TASK: Generate a brand-new professional 16:9 web banner for a blog post about: '' @ prompt @ utf16 ''.'',
      utf16 ''      - Focus on premium stock-photo quality or clean corporate 3D/flat illustration.'',
      utf16 ''      ''])"

definition buildParts :: "js_string \<Rightarrow> ImageData option \<Rightarrow> Part list" where
  "buildParts prompt originalImage =
     (case originalImage of
        Some img \<Rightarrow> [InlineDataPart (data img) (mimeType img), TextPart (editPrompt prompt)]
      | None \<Rightarrow> [TextPart (newPrompt prompt)])"

text \<open>
  The four requests run concurrently, each in its own call chain. \<open>upstream i n\<close> is
  the behaviour of the service at invocation \<open>n\<close> of request \<open>i\<close>, so any
  interleaving of the four chains is some \<open>upstream\<close>. \<^verbatim>\<open>Promise.allSettled\<close> returns
  the outcomes in the order of the array it is given.
\<close>

type_synonym Upstream = "nat \<Rightarrow> nat \<Rightarrow> GoogleGenAI"

definition requests ::
  "Upstream \<Rightarrow> Part list \<Rightarrow> ((js_error + ImageData) \<times> retry_log) list" where
  "requests upstream ps =
     map (\<lambda>i. retryOperation (\<lambda>n. generateSingleRequest (upstream i n) ps) 2 2000 emptyLog)
       [0..<4]"

definition isRejected :: "js_error + 'a \<Rightarrow> bool" where
  "isRejected r = (case r of Inl _ \<Rightarrow> True | Inr _ \<Rightarrow> False)"

definition isFulfilled :: "js_error + 'a \<Rightarrow> bool" where
  "isFulfilled r = (case r of Inl _ \<Rightarrow> False | Inr _ \<Rightarrow> True)"

text \<open>
  The run of one call: the requests that were issued, each with its log, and what the
  call returned or threw. In \<^verbatim>\<open>throw firstRejected?.reason || new Error(...)\<close> the
  generic error is thrown when no outcome is a rejection and when the reason of the first
  rejection is falsy.
\<close>

record generation_run =
  issued :: "((js_error + ImageData) \<times> retry_log) list"
  returned :: "js_error + ImageData list"

definition generateOrEditImage ::
  "string \<Rightarrow> Upstream \<Rightarrow> js_string \<Rightarrow> ImageData option \<Rightarrow> generation_run" where
  "generateOrEditImage API_KEY upstream prompt originalImage =
     (if API_KEY = [] then
        \<lparr>issued = [],
         returned = Inl (Error ''API Key is missing in environment variables.'')\<rparr>
      else
        let ps = buildParts prompt originalImage;
            reqs = requests upstream ps;
            results = map fst reqs;
            successfulImages = map projr (filter isFulfilled results)
        in
        if length successfulImages = 0 then
          \<lparr>issued = reqs,
           returned =
             (case find isRejected results of
                Some (Inl reason) \<Rightarrow>
                  if isFalsy reason then Inl (Error ''Generation failed.'') else Inl reason
              | _ \<Rightarrow> Inl (Error ''Generation failed.''))\<rparr>
        else \<lparr>issued = reqs, returned = Inr successfulImages\<rparr>)"

subsection \<open>generateEditSuggestions\<close>

text \<open>
  \<^verbatim>\<open>text.replace(/```json|```/g, '')\<close>: scanning from the left, every occurrence of
  the fence with the language tag, or else of the bare fence, is removed.
\<close>

definition fence :: js_string where
  "fence = [0x0060, 0x0060, 0x0060]"

function stripFences :: "js_string \<Rightarrow> js_string" where
  "stripFences [] = []"
| "stripFences (c # cs) =
     (if prefix (fence @ utf16 ''json'') (c # cs) then stripFences (drop 7 (c # cs))
      else if prefix fence (c # cs) then stripFences (drop 3 (c # cs))
      else c # stripFences cs)"
  by pat_completeness auto
termination
  by (relation "measure length") auto

text \<open>
  The values \<^verbatim>\<open>JSON.parse\<close> produces. The parser itself is the JavaScript built-in; it is
  a parameter of the model, \<open>None\<close> standing for the \<^verbatim>\<open>SyntaxError\<close> it throws.
\<close>

datatype json =
  JNull | JBool bool | JNumber int | JString js_string | JArray "json list"
  | JObject "(js_string \<times> json) list"

type_synonym JSON_parse = "js_string \<Rightarrow> json option"

text \<open>
  \<^verbatim>\<open>Array.prototype.slice(start, end)\<close>: a negative index counts from the end, and both
  are clamped to the bounds of the array.
\<close>

definition slice :: "'a list \<Rightarrow> int \<Rightarrow> int \<Rightarrow> 'a list" where
  "slice xs start end' =
     (let len = int (length xs);
          k = (if start < 0 then max (len + start) 0 else min start len);
          final = (if end' < 0 then max (len + end') 0 else min end' len)
      in drop (nat k) (take (nat final) xs))"


definition suggestionPrompt :: js_string where
  \<open>suggestionPrompt = utf16 ''Analyze this image and suggest 3 professional blog topics it could illustrate as a featured image. Return ONLY a JSON array of strings. Example: ["Remote work productivity", "Cybersecurity basics"]''\<close>

text \<open>The operation handed to \<^verbatim>\<open>retryOperation\<close>: both \<^verbatim>\<open>try\<close> blocks are in it.\<close>

definition suggestionsOperation ::
  "JSON_parse \<Rightarrow> GoogleGenAI \<Rightarrow> ImageData \<Rightarrow> js_error + json list" where
  "suggestionsOperation parse ai originalImage =
     (case ai ''gemini-2.5-flash''
             [InlineDataPart (data originalImage) (mimeType originalImage),
              TextPart suggestionPrompt] of
        Inl error \<Rightarrow> Inr []
      | Inr response \<Rightarrow>
          (if responseText response = None \<or> responseText response = Some [] then Inr []
           else
             (let cleanedText = trim (stripFences (the (responseText response))) in
              case parse cleanedText of
                None \<Rightarrow> Inr []
              | Some (JArray parsed) \<Rightarrow> Inr (slice parsed 0 3)
              | Some _ \<Rightarrow> Inr [])))"


section \<open>utils/imageUtils.ts\<close>

text \<open>
  The regular expression \<^verbatim>\<open>/^data:(.+);base64,(.+)$/\<close>. A dot matches any character
  but a line terminator, and the first group is greedy: of all the ways to split the text
  after \<^verbatim>\<open>data:\<close> around an occurrence of \<^verbatim>\<open>;base64,\<close> into two non-empty groups, the
  match is the one with the longest first group. (Of the line terminators, LF and CR are
  single characters of \<^typ>\<open>string\<close>.)
\<close>

definition isLineTerminator :: "char \<Rightarrow> bool" where
  "isLineTerminator c = (c = CHR 0x0A \<or> c = CHR 0x0D)"

text \<open>All \<open>(a, b)\<close> with \<open>s = a @ sep @ b\<close>, the shortest \<open>a\<close> first.\<close>

fun splitsAround :: "string \<Rightarrow> string \<Rightarrow> (string \<times> string) list" where
  "splitsAround sep [] = (if sep = [] then [([], [])] else [])"
| "splitsAround sep (c # cs) =
     (if prefix sep (c # cs) then [([], drop (length sep) (c # cs))] else []) @
     map (\<lambda>(a, b). (c # a, b)) (splitsAround sep cs)"

definition dotPlus :: "string \<Rightarrow> bool" where
  "dotPlus g = (g \<noteq> [] \<and> \<not> list_ex isLineTerminator g)"

definition matchDataUrl :: "string \<Rightarrow> (string \<times> string) option" where
  "matchDataUrl s =
     (if prefix ''data:'' s then
        (case filter (\<lambda>(a, b). dotPlus a \<and> dotPlus b)
                (rev (splitsAround '';base64,'' (drop 5 s))) of
           [] \<Rightarrow> None
         | (a, b) # _ \<Rightarrow> Some (a, b))
      else None)"

text \<open>
  \<^verbatim>\<open>fileToImageData\<close>: the argument is what the \<^verbatim>\<open>FileReader\<close> delivers, its error
  event or the data URL of the file.
\<close>

definition fileToImageData :: "js_error + string \<Rightarrow> js_error + ImageData" where
  "fileToImageData reader =
     (case reader of
        Inl error \<Rightarrow> Inl error
      | Inr result \<Rightarrow>
          (case matchDataUrl result of
             Some (m, d) \<Rightarrow> Inr \<lparr>data = d, mimeType = m, url = result\<rparr>
           | None \<Rightarrow> Inl (Error ''Invalid format'')))"

text \<open>
  \<^verbatim>\<open>getCroppedImg\<close>: the browser's part is whether the source image loads
  (\<open>Some e\<close>: it fails with \<open>e\<close>), whether the canvas gives a 2D context, and the data URL
  that \<^verbatim>\<open>canvas.toDataURL('image/png', 0.95)\<close> returns once the crop is drawn.
\<close>

definition getCroppedImg :: "js_error option \<Rightarrow> bool \<Rightarrow> string \<Rightarrow> js_error + ImageData" where
  "getCroppedImg loadError hasContext dataUrl =
     (case loadError of
        Some error \<Rightarrow> Inl error
      | None \<Rightarrow>
          (if \<not> hasContext then Inl (Error ''No context'')
           else
             (case matchDataUrl dataUrl of
                Some (m, d) \<Rightarrow> Inr \<lparr>data = d, mimeType = m, url = dataUrl\<rparr>
              | None \<Rightarrow> Inl (Error ''Canvas failed''))))"

subsection \<open>resizeImage\<close>

text \<open>
  The canvas after \<^verbatim>\<open>resizeImage\<close> has drawn on it: its size and the drawing calls in
  order. The promise resolves with the encoding of this canvas. JavaScript numbers are
  modelled as exact reals.
\<close>

datatype Fit = cover | contain | stretch

datatype DrawCall =
  FillRect string real real real real
  | DrawImage (dx: real) (dy: real) (dWidth: real) (dHeight: real)

record Canvas =
  canvasWidth :: real
  canvasHeight :: real
  calls :: "DrawCall list"

text \<open>
  The first argument is the outcome of loading the image: its error event, or its
  intrinsic \<^verbatim>\<open>width\<close> and \<^verbatim>\<open>height\<close>.
\<close>

definition resizeImage ::
  "js_error + nat \<times> nat \<Rightarrow> bool \<Rightarrow> real \<Rightarrow> real \<Rightarrow> Fit \<Rightarrow> js_error + Canvas" where
  "resizeImage img hasContext targetWidth targetHeight fit =
     (case img of
        Inl error \<Rightarrow> Inl error
      | Inr (width, height) \<Rightarrow>
          (if \<not> hasContext then Inl (Error ''Canvas error'')
           else
             (let fill = FillRect ''white'' 0 0 targetWidth targetHeight;
                  imgAspect = real width / real height;
                  targetAspect = targetWidth / targetHeight;
                  draw =
                    (if fit = stretch then DrawImage 0 0 targetWidth targetHeight
                     else if fit = cover then
                       (if imgAspect > targetAspect then
                          (let drawHeight = targetHeight;
                               drawWidth = targetHeight * imgAspect
                           in DrawImage ((targetWidth - drawWidth) / 2) 0 drawWidth drawHeight)
                        else
                          (let drawWidth = targetWidth;
                               drawHeight = targetWidth / imgAspect
                           in DrawImage 0 ((targetHeight - drawHeight) / 2) drawWidth drawHeight))
                     else
                       (if imgAspect > targetAspect then
                          (let drawWidth = targetWidth;
                               drawHeight = targetWidth / imgAspect
                           in DrawImage 0 ((targetHeight - drawHeight) / 2) drawWidth drawHeight)
                        else
                          (let drawHeight = targetHeight;
                               drawWidth = targetHeight * imgAspect
                           in DrawImage ((targetWidth - drawWidth) / 2) 0 drawWidth drawHeight)))
              in Inr \<lparr>canvasWidth = targetWidth, canvasHeight = targetHeight,
                       calls = [fill, draw]\<rparr>)))"

section \<open>The ImageEditor component\<close>

text \<open>
  The React state and refs of the component that the handlers below read or write, and
  the toasts shown so far. \<open>isDrawing\<close> is \<^verbatim>\<open>isDrawingRef.current\<close>. Brush settings,
  crop state and suggestions are not touched by these handlers and are left out.
\<close>

datatype Toast = ToastError string | ToastSuccess string

record Editor =
  originalImage :: "ImageData option"
  generatedImages :: "ImageData list"
  selectedImageIndex :: int
  prompt :: js_string
  editorStatus :: EditorStatus
  isPainting :: bool
  paintHistory :: "string list"
  historyStep :: int
  isDrawing :: bool
  toasts :: "Toast list"

text \<open>
  The component as first mounted without a saved session: every \<^verbatim>\<open>useState\<close> at its
  default.
\<close>

definition initialEditor :: Editor where
  "initialEditor =
     \<lparr>originalImage = None, generatedImages = [], selectedImageIndex = 0, prompt = [],
      editorStatus = IDLE, isPainting = False, paintHistory = [], historyStep = 0,
      isDrawing = False, toasts = []\<rparr>"

text \<open>
  The mounted paint canvas, \<^verbatim>\<open>paintCanvasRef.current\<close>, is given by its
  \<^verbatim>\<open>toDataURL(type)\<close>; the ref is \<open>None\<close> while no canvas is mounted.
\<close>

type_synonym PaintCanvas = "string \<Rightarrow> string"

subsection \<open>Painting\<close>

definition startPainting :: "Editor \<Rightarrow> Editor" where
  "startPainting s =
     (case originalImage s of
        None \<Rightarrow> s
      | Some img \<Rightarrow>
          (let s' = s\<lparr>isPainting := True\<rparr> in
           if length (paintHistory s) = 0
           then s'\<lparr>paintHistory := [url img], historyStep := 0\<rparr>
           else s'))"

definition onPaintStart :: "Editor \<Rightarrow> Editor" where
  "onPaintStart s = (if \<not> isPainting s then s else s\<lparr>isDrawing := True\<rparr>)"

definition onPaintEnd :: "PaintCanvas option \<Rightarrow> Editor \<Rightarrow> Editor" where
  "onPaintEnd canvas s =
     (if \<not> isDrawing s \<or> canvas = None then s
      else
        (let newUrl = the canvas ''image/png'';
             newHistory = slice (paintHistory s) 0 (historyStep s + 1) @ [newUrl]
         in s\<lparr>isDrawing := False, paintHistory := newHistory,
               historyStep := int (length newHistory) - 1\<rparr>))"

definition handleSavePaint :: "PaintCanvas option \<Rightarrow> Editor \<Rightarrow> Editor" where
  "handleSavePaint canvas s =
     (case (canvas, originalImage s) of
        (Some c, Some img) \<Rightarrow>
          (let dataUrl = c (mimeType img) in
           case matchDataUrl dataUrl of
             Some (m, d) \<Rightarrow>
               s\<lparr>originalImage := Some \<lparr>data = d, mimeType = m, url = dataUrl\<rparr>,
                 isPainting := False, paintHistory := [], historyStep := 0,
                 toasts := toasts s @ [ToastSuccess ''Banner updated!'']\<rparr>
           | None \<Rightarrow> s)
      | _ \<Rightarrow> s)"

definition handleCancelPaint :: "Editor \<Rightarrow> Editor" where
  "handleCancelPaint s = s\<lparr>isPainting := False, paintHistory := [], historyStep := 0\<rparr>"

definition undoPaint :: "Editor \<Rightarrow> Editor" where
  "undoPaint s = (if historyStep s > 0 then s\<lparr>historyStep := historyStep s - 1\<rparr> else s)"

definition redoPaint :: "Editor \<Rightarrow> Editor" where
  "redoPaint s =
     (if historyStep s < int (length (paintHistory s)) - 1
      then s\<lparr>historyStep := historyStep s + 1\<rparr> else s)"

text \<open>
  \<^verbatim>\<open>paintHistory[historyStep]\<close>, the snapshot the pointer is at; \<open>None\<close> is JavaScript's
  \<^verbatim>\<open>undefined\<close> for an index outside the array.
\<close>

definition currentSnapshot :: "Editor \<Rightarrow> string option" where
  "currentSnapshot s =
     (if 0 \<le> historyStep s \<and> historyStep s < int (length (paintHistory s))
      then Some (paintHistory s ! nat (historyStep s)) else None)"

text \<open>
  One committed stroke on a canvas that then encodes to \<open>u\<close>: the pointer goes down
  (\<^verbatim>\<open>onPaintStart\<close>) and is released (\<^verbatim>\<open>onPaintEnd\<close>).
\<close>

definition stroke :: "string \<Rightarrow> Editor \<Rightarrow> Editor" where
  "stroke u s = onPaintEnd (Some (\<lambda>type. u)) (onPaintStart s)"

subsection \<open>handleGenerate\<close>

text \<open>Decimal digits of a length, for the template literal of the success toast.\<close>

fun decimal :: "nat \<Rightarrow> string" where
  "decimal n =
     (if n < 10 then [char_of (48 + n)]
      else decimal (n div 10) @ [char_of (48 + n mod 10)])"

declare decimal.simps [simp del]

text \<open>
  The state when the handler has run to its end, and the run of the orchestrator it
  awaited; \<open>None\<close> when \<^verbatim>\<open>generateOrEditImage\<close> was not called.
\<close>

definition handleGenerate ::
  "string \<Rightarrow> Upstream \<Rightarrow> Editor \<Rightarrow> Editor \<times> generation_run option" where
  "handleGenerate API_KEY upstream s =
     (if trim (prompt s) = [] then
        (s\<lparr>toasts := toasts s @ [ToastError ''Please enter a topic for your blog image'']\<rparr>,
         None)
      else
        (let s1 = s\<lparr>editorStatus := PROCESSING, generatedImages := []\<rparr>;
             run = generateOrEditImage API_KEY upstream (prompt s) (originalImage s)
         in case returned run of
              Inr results \<Rightarrow>
                (s1\<lparr>generatedImages := results, selectedImageIndex := 0,
                    editorStatus := SUCCESS,
                    toasts := toasts s1 @
                      [ToastSuccess (''Generated '' @ decimal (length results) @
                         '' professional banners!'')]\<rparr>,
                 Some run)
            | Inl error \<Rightarrow>
                (s1\<lparr>editorStatus := ERROR,
                    toasts := toasts s1 @
                      [ToastError (''Generation failed: '' @
                         (case message error of None \<Rightarrow> ''undefined'' | Some m \<Rightarrow> m))]\<rparr>,
                 Some run)))"

section \<open>Auxiliary predicates and example inputs\<close>

text \<open>Invocation \<open>n\<close> of the operation is rejected with a quota error.\<close>

definition quotaFailure :: "(nat \<Rightarrow> js_error + 'a) \<Rightarrow> nat \<Rightarrow> bool" where
  "quotaFailure operation n = (case operation n of Inl e \<Rightarrow> isQuotaError e | Inr _ \<Rightarrow> False)"

text \<open>Operations and upstream behaviours at which the properties are instantiated.\<close>

definition sunset :: js_string where
  "sunset = utf16 ''sunset''"

definition spacedSunset :: js_string where
  "spacedSunset = utf16 '' sunset ''"

definition quota429 :: js_error where
  "quota429 = Truthy (Some 429) None None None"

definition alwaysQuota :: "nat \<Rightarrow> js_error + nat" where
  "alwaysQuota n = Inl quota429"

definition alwaysBroken :: "nat \<Rightarrow> js_error + nat" where
  "alwaysBroken n = Inl (Error ''Network down'')"

definition secondTimeLucky :: "nat \<Rightarrow> js_error + nat" where
  "secondTimeLucky n = (if n = 0 then Inl (Error ''quota exceeded'') else Inr 7)"

definition picture :: "string \<Rightarrow> ImageData" where
  "picture b = \<lparr>data = b, mimeType = ''image/png'', url = ''data:image/png;base64,'' @ b\<rparr>"

definition pictureResponse :: "string \<Rightarrow> GenerateContentResponse" where
  "pictureResponse b =
     GenerateContentResponse
       (Some [Candidate (Some (Content (Some [ResponsePart (Some (Blob None b))])))]) None"

definition healthy :: Upstream where
  "healthy i n model ps = Inr (pictureResponse ''QUFB'')"

definition flaky :: Upstream where
  "flaky i n model ps =
     (if i = 1 then Inr (pictureResponse ''QUFB'')
      else if i = 3 then Inr (pictureResponse ''QkJC'')
      else Inl (Error ''Failed to fetch''))"

definition broken :: Upstream where
  "broken i n model ps =
     (if i = 0 then Inl (Error ''Connection reset'') else Inl (Error ''Failed to fetch''))"

definition silentFirst :: Upstream where
  "silentFirst i n model ps =
     (if i = 0 then Inl (Falsy Undefined) else Inl (Error ''Failed to fetch''))"

definition quotaThenEmpty :: Upstream where
  "quotaThenEmpty i n model ps =
     (if n = 0 then Inl quota429 else Inr (GenerateContentResponse (Some []) None))"

definition noCandidates :: Upstream where
  "noCandidates i n model ps = Inr (GenerateContentResponse (Some []) None)"

definition noContent :: Upstream where
  "noContent i n model ps = Inr (GenerateContentResponse (Some [Candidate None]) None)"

definition textOnly :: Upstream where
  "textOnly i n model ps =
     Inr (GenerateContentResponse
       (Some [Candidate (Some (Content (Some [ResponsePart None, ResponsePart None])))])
       (Some (utf16 ''A banner'')))"

text \<open>
  The invariant of the paint session: the pointer is an index into a non-empty history.
\<close>

definition historyInvariant :: "Editor \<Rightarrow> bool" where
  "historyInvariant s =
     (paintHistory s \<noteq> [] \<longrightarrow>
        0 \<le> historyStep s \<and> historyStep s < int (length (paintHistory s)))"

text \<open>Editor states, canvases, data URLs and replies for the instances below.\<close>

definition sampleImage :: ImageData where
  "sampleImage = \<lparr>data = ''QUFB'', mimeType = ''image/png'', url = ''data:image/png;base64,QUFB''\<rparr>"

definition seeded :: Editor where
  "seeded = startPainting (initialEditor\<lparr>originalImage := Some sampleImage\<rparr>)"

definition sampleCanvas :: PaintCanvas where
  "sampleCanvas type = ''data:'' @ type @ '';base64,QkJC''"

definition blankPrompt :: Editor where
  "blankPrompt = initialEditor\<lparr>prompt := [0x0020, 0x00A0, 0x0009, 0x3000, 0x000A, 0xFEFF]\<rparr>"

definition jpegUrl :: string where
  "jpegUrl = ''data:image/jpeg;base64,/9j/4AAQSkZJRg==''"

definition jpeg :: ImageData where
  "jpeg = \<lparr>data = ''/9j/4AAQSkZJRg=='', mimeType = ''image/jpeg'', url = jpegUrl\<rparr>"

definition pngB :: ImageData where
  "pngB = \<lparr>data = ''QkJC'', mimeType = ''image/png'', url = ''data:image/png;base64,QkJC''\<rparr>"








section \<open>Properties of the generation service\<close>

lemma js_includes_iff: "js_includes s t \<longleftrightarrow> (\<exists>a b. s = a @ t @ b)"
proof (induction s)
  case Nil
  then show ?case by auto
next
  case (Cons c cs)
  show ?case
  proof
    assume "js_includes (c # cs) t"
    then consider "prefix t (c # cs)" | "js_includes cs t" by auto
    then show "\<exists>a b. c # cs = a @ t @ b"
    proof cases
      case 1
      then obtain b where "c # cs = t @ b" by (auto simp: prefix_def)
      then have "c # cs = [] @ t @ b" by simp
      then show ?thesis by blast
    next
      case 2
      with Cons.IH obtain a b where "cs = a @ t @ b" by blast
      then have "c # cs = (c # a) @ t @ b" by simp
      then show ?thesis by blast
    qed
  next
    assume "\<exists>a b. c # cs = a @ t @ b"
    then obtain a b where ab: "c # cs = a @ t @ b" by blast
    show "js_includes (c # cs) t"
    proof (cases a)
      case Nil
      with ab have "prefix t (c # cs)" by (simp add: prefix_def)
      then show ?thesis by simp
    next
      case (Cons x xs)
      with ab have "cs = xs @ t @ b" by simp
      with Cons.IH have "js_includes cs t" by blast
      then show ?thesis by simp
    qed
  qed
qed

lemma retry_fulfilled:
  "operation (invocations lg) = Inr v \<Longrightarrow>
   retryOperation operation maxRetries delay lg = (Inr v, lg\<lparr>invocations := Suc (invocations lg)\<rparr>)"
  by (subst retryOperation.simps) (simp add: Let_def)

lemma retry_not_quota:
  "operation (invocations lg) = Inl e \<Longrightarrow> \<not> isQuotaError e \<Longrightarrow>
   retryOperation operation maxRetries delay lg = (Inl e, lg\<lparr>invocations := Suc (invocations lg)\<rparr>)"
  by (subst retryOperation.simps) (simp add: Let_def)

lemma retry_quota_again:
  "operation (invocations lg) = Inl e \<Longrightarrow> isQuotaError e \<Longrightarrow>
   retryOperation operation (Suc m) delay lg =
     retryOperation operation m (delay * 2)
       (lg\<lparr>invocations := Suc (invocations lg), waits := waits lg @ [delay]\<rparr>)"
  by (subst retryOperation.simps) (simp add: Let_def)

lemma retry_quota_exhausted:
  "operation (invocations lg) = Inl e \<Longrightarrow> isQuotaError e \<Longrightarrow>
   retryOperation operation 0 delay lg =
     (Inl usageLimitError, lg\<lparr>invocations := Suc (invocations lg)\<rparr>)"
  by (subst retryOperation.simps) (simp add: Let_def)

lemma retry_default_unfold:
  "retryOperation operation 2 2000 emptyLog =
     (case operation 0 of
        Inr v \<Rightarrow> (Inr v, \<lparr>invocations = 1, waits = []\<rparr>)
      | Inl e0 \<Rightarrow>
          if \<not> isQuotaError e0 then (Inl e0, \<lparr>invocations = 1, waits = []\<rparr>)
          else
            (case operation 1 of
               Inr v \<Rightarrow> (Inr v, \<lparr>invocations = 2, waits = [2000]\<rparr>)
             | Inl e1 \<Rightarrow>
                 if \<not> isQuotaError e1 then (Inl e1, \<lparr>invocations = 2, waits = [2000]\<rparr>)
                 else
                   (case operation 2 of
                      Inr v \<Rightarrow> (Inr v, \<lparr>invocations = 3, waits = [2000, 4000]\<rparr>)
                    | Inl e2 \<Rightarrow>
                        if \<not> isQuotaError e2 then (Inl e2, \<lparr>invocations = 3, waits = [2000, 4000]\<rparr>)
                        else (Inl usageLimitError, \<lparr>invocations = 3, waits = [2000, 4000]\<rparr>))))"
proof -
  have two: "(2::nat) = Suc (Suc 0)" by simp
  show ?thesis
    unfolding two emptyLog_def
    by (auto split: sum.splits
        simp: retry_fulfilled retry_not_quota retry_quota_again retry_quota_exhausted
          eval_nat_numeral)
qed

lemma quotaFailureD:
  "quotaFailure operation n \<Longrightarrow> \<exists>e. operation n = Inl e \<and> isQuotaError e"
  by (cases "operation n") (simp_all add: quotaFailure_def)

lemma all_less_1: "(\<forall>n<Suc 0. P n) \<longleftrightarrow> P (0::nat)"
  by simp

lemma all_less_2: "(\<forall>n<2. P n) \<longleftrightarrow> P (0::nat) \<and> P 1"
proof -
  have e: "n < 2 \<longleftrightarrow> n = 0 \<or> n = 1" for n :: nat by linarith
  show ?thesis unfolding e by blast
qed

lemma all_less_3: "(\<forall>n<3. P n) \<longleftrightarrow> P (0::nat) \<and> P 1 \<and> P 2"
proof -
  have e: "n < 3 \<longleftrightarrow> n = 0 \<or> n = 1 \<or> n = 2" for n :: nat by linarith
  show ?thesis unfolding e by blast
qed

lemma default_run_fulfilled:
  assumes "k < 3" "\<forall>n<k. quotaFailure operation n" "operation k = Inr v"
  shows "retryOperation operation 2 2000 emptyLog =
           (Inr v, \<lparr>invocations = Suc k, waits = take k [2000, 4000]\<rparr>)"
proof -
  from assms(1) consider "k = 0" | "k = 1" | "k = 2" by linarith
  then show ?thesis
  proof cases
    case 1
    with assms show ?thesis by (simp add: retry_default_unfold)
  next
    case 2
    with assms obtain e0 where "operation 0 = Inl e0" "isQuotaError e0"
      using quotaFailureD [of operation 0] by auto
    with 2 assms show ?thesis by (simp add: retry_default_unfold)
  next
    case 3
    with assms obtain e0 e1 where "operation 0 = Inl e0" "isQuotaError e0"
      "operation 1 = Inl e1" "isQuotaError e1"
      using quotaFailureD [of operation 0] quotaFailureD [of operation 1]
      by (auto simp: all_less_2)
    with 3 assms show ?thesis by (simp add: retry_default_unfold)
  qed
qed

lemma default_run_rejected:
  assumes "k < 3" "\<forall>n<k. quotaFailure operation n" "operation k = Inl e" "\<not> isQuotaError e"
  shows "retryOperation operation 2 2000 emptyLog =
           (Inl e, \<lparr>invocations = Suc k, waits = take k [2000, 4000]\<rparr>)"
proof -
  from assms(1) consider "k = 0" | "k = 1" | "k = 2" by linarith
  then show ?thesis
  proof cases
    case 1
    with assms show ?thesis by (simp add: retry_default_unfold)
  next
    case 2
    with assms obtain e0 where "operation 0 = Inl e0" "isQuotaError e0"
      using quotaFailureD [of operation 0] by auto
    with 2 assms show ?thesis by (simp add: retry_default_unfold)
  next
    case 3
    with assms obtain e0 e1 where "operation 0 = Inl e0" "isQuotaError e0"
      "operation 1 = Inl e1" "isQuotaError e1"
      using quotaFailureD [of operation 0] quotaFailureD [of operation 1]
      by (auto simp: all_less_2)
    with 3 assms show ?thesis by (simp add: retry_default_unfold)
  qed
qed

lemma default_run_exhausted:
  assumes "\<forall>n<3. quotaFailure operation n"
  shows "retryOperation operation 2 2000 emptyLog =
           (Inl usageLimitError, \<lparr>invocations = 3, waits = [2000, 4000]\<rparr>)"
proof -
  from assms obtain e0 e1 e2 where "operation 0 = Inl e0" "isQuotaError e0"
    "operation 1 = Inl e1" "isQuotaError e1" "operation 2 = Inl e2" "isQuotaError e2"
    using quotaFailureD [of operation 0] quotaFailureD [of operation 1]
      quotaFailureD [of operation 2]
    by (auto simp: all_less_3)
  then show ?thesis by (simp add: retry_default_unfold)
qed

lemma default_run_cases:
  obtains
    (fulfilled) k v where "k < 3" "\<forall>n<k. quotaFailure operation n" "operation k = Inr v"
  | (rejected) k e where "k < 3" "\<forall>n<k. quotaFailure operation n" "operation k = Inl e"
      "\<not> isQuotaError e"
  | (exhausted) "\<forall>n<3. quotaFailure operation n"
proof (cases "\<forall>n<3. quotaFailure operation n")
  case True
  then show ?thesis by (rule exhausted)
next
  case False
  define k where "k = (LEAST n. \<not> quotaFailure operation n)"
  from False obtain n where n: "n < 3" "\<not> quotaFailure operation n" by blast
  then have nk: "\<not> quotaFailure operation k" unfolding k_def by (metis LeastI)
  have "k \<le> n" unfolding k_def using n(2) by (rule Least_le)
  with n have k3: "k < 3" by simp
  have before: "\<forall>m<k. quotaFailure operation m"
    unfolding k_def using not_less_Least by blast
  show ?thesis
  proof (cases "operation k")
    case (Inr v)
    with k3 before show ?thesis by (rule fulfilled)
  next
    case (Inl e)
    with nk have "\<not> isQuotaError e" by (simp add: quotaFailure_def)
    with k3 before Inl show ?thesis by (rule rejected)
  qed
qed

lemma default_run_log:
  "case retryOperation operation 2 2000 emptyLog of
     (r, lg) \<Rightarrow>
       invocations lg \<le> 3 \<and>
       waits lg = take (invocations lg - 1) [2000, 4000] \<and>
       (\<forall>n < invocations lg - 1. quotaFailure operation n)"
proof (cases rule: default_run_cases [of operation])
  case (fulfilled k v)
  then show ?thesis by (simp add: default_run_fulfilled)
next
  case (rejected k e)
  then show ?thesis by (simp add: default_run_rejected)
next
  case exhausted
  then show ?thesis by (simp add: default_run_exhausted all_less_2 all_less_3)
qed

lemma isQuotaError_iff:
  "isQuotaError e \<longleftrightarrow>
     status e = Some 429 \<or> code e = Some 429 \<or> response_status e = Some 429 \<or>
     (\<exists>m. message e = Some m \<and>
        (sublist ''429'' m \<or> sublist ''RESOURCE_EXHAUSTED'' m \<or> sublist ''quota'' m))"
  unfolding isQuotaError_def messageIncludes_def sublist_def js_includes_iff
  by (cases "message e") auto

lemma slice_0_take: "0 \<le> e \<Longrightarrow> slice xs 0 e = take (nat e) xs"
  by (simp add: slice_def Let_def min_def)

lemma slice_0_3: "slice xs 0 3 = take 3 xs"
  using slice_0_take [of 3 xs] by simp

lemma suggestionsOperation_cases:
  "suggestionsOperation parse ai img =
     Inr (case ai ''gemini-2.5-flash''
                [InlineDataPart (data img) (mimeType img), TextPart suggestionPrompt] of
            Inl e \<Rightarrow> []
          | Inr r \<Rightarrow>
              (case responseText r of
                 None \<Rightarrow> []
               | Some text \<Rightarrow>
                   if text = [] then []
                   else
                     (case parse (trim (stripFences text)) of
                        None \<Rightarrow> []
                      | Some (JArray parsed) \<Rightarrow> take 3 parsed
                      | Some _ \<Rightarrow> [])))"
  by (auto simp: suggestionsOperation_def Let_def slice_0_3
      split: sum.splits option.splits json.splits)

lemma retry_first_emptyLog:
  "operation 0 = Inr v \<Longrightarrow>
   retryOperation operation maxRetries delay emptyLog = (Inr v, \<lparr>invocations = 1, waits = []\<rparr>)"
  using retry_fulfilled [of operation emptyLog v maxRetries delay]
  by (simp add: emptyLog_def)

lemma suggestions_run:
  "retryOperation (\<lambda>n. suggestionsOperation parse (ai n) img) 1 1000 emptyLog =
     (suggestionsOperation parse (ai 0) img, \<lparr>invocations = 1, waits = []\<rparr>) \<and>
   isFulfilled (suggestionsOperation parse (ai 0) img)"
proof -
  obtain xs where xs: "suggestionsOperation parse (ai 0) img = Inr xs"
    using suggestionsOperation_cases [of parse "ai 0" img] by blast
  then have "retryOperation (\<lambda>n. suggestionsOperation parse (ai n) img) 1 1000 emptyLog =
      (Inr xs, \<lparr>invocations = 1, waits = []\<rparr>)"
    by (rule retry_first_emptyLog)
  with xs show ?thesis by (simp add: isFulfilled_def)
qed

text \<open>
  \<^bold>\<open>C2\<close> (retry policy). For every operation run by \<^verbatim>\<open>retryOperation\<close> with its default
  parameters, as every generation request is: the operation is invoked at most 3 times (at
  most 2 retries), the delays slept are a prefix of 2000 ms, 4000 ms, and every retry
  follows a failure classified as a quota error. Three quota failures in a row end in the
  usage-limit error after both delays; a failure that is not a quota error is thrown at
  once, unchanged, with no further invocation; a success is returned at once. A failure is
  a quota error exactly when its status, its code or its response status is 429 or its
  message contains \<^verbatim>\<open>429\<close>, \<^verbatim>\<open>RESOURCE_EXHAUSTED\<close> or \<^verbatim>\<open>quota\<close>. The one other operation the
  program wraps, the suggestion call (1 retry, 1000 ms), never fails and so is invoked
  once and never retried.
\<close>

theorem retryOperation_policy:
  fixes operation :: "nat \<Rightarrow> js_error + 'a"
  shows
    "(case retryOperation operation 2 2000 emptyLog of
        (r, lg) \<Rightarrow>
          invocations lg \<le> 3 \<and>
          waits lg = take (invocations lg - 1) [2000, 4000] \<and>
          (\<forall>n < invocations lg - 1. quotaFailure operation n)) \<and>
     ((\<forall>n<3. quotaFailure operation n) \<longrightarrow>
        retryOperation operation 2 2000 emptyLog =
          (Inl usageLimitError, \<lparr>invocations = 3, waits = [2000, 4000]\<rparr>)) \<and>
     (\<forall>k e. k < 3 \<and> (\<forall>n<k. quotaFailure operation n) \<and>
            operation k = Inl e \<and> \<not> isQuotaError e \<longrightarrow>
        retryOperation operation 2 2000 emptyLog =
          (Inl e, \<lparr>invocations = Suc k, waits = take k [2000, 4000]\<rparr>)) \<and>
     (\<forall>k v. k < 3 \<and> (\<forall>n<k. quotaFailure operation n) \<and> operation k = Inr v \<longrightarrow>
        retryOperation operation 2 2000 emptyLog =
          (Inr v, \<lparr>invocations = Suc k, waits = take k [2000, 4000]\<rparr>)) \<and>
     (\<forall>e. isQuotaError e \<longleftrightarrow>
        status e = Some 429 \<or> code e = Some 429 \<or> response_status e = Some 429 \<or>
        (\<exists>m. message e = Some m \<and>
           (sublist ''429'' m \<or> sublist ''RESOURCE_EXHAUSTED'' m \<or> sublist ''quota'' m))) \<and>
     retryOperation (\<lambda>n. suggestionsOperation parse (ai n) img) 1 1000 emptyLog =
       (suggestionsOperation parse (ai 0) img, \<lparr>invocations = 1, waits = []\<rparr>) \<and>
     isFulfilled (suggestionsOperation parse (ai 0) img)"
  using default_run_log [of operation] default_run_exhausted [of operation]
    default_run_rejected [of _ operation] default_run_fulfilled [of _ operation]
    isQuotaError_iff suggestions_run [of parse ai img]
  by blast

lemma isQuota_quota429: "isQuotaError quota429"
  by (simp add: isQuotaError_def quota429_def)

lemma not_quota_network: "\<not> isQuotaError (Error ''Network down'')"
  by (simp add: isQuotaError_def Error_def messageIncludes_def)

lemma quota_word: "isQuotaError (Error ''quota exceeded'')"
  by (simp add: isQuotaError_def Error_def messageIncludes_def)

text \<open>
  The policy at three operations: one that always hits the quota, one that fails with a
  network error, and one that succeeds at its second invocation.
\<close>

theorem retryOperation_policy_witness:
  "quotaFailure alwaysQuota 0 \<and> quotaFailure alwaysQuota 1 \<and> quotaFailure alwaysQuota 2 \<and>
   retryOperation alwaysQuota 2 2000 emptyLog =
     (Inl usageLimitError, \<lparr>invocations = 3, waits = [2000, 4000]\<rparr>) \<and>
   \<not> isQuotaError (Error ''Network down'') \<and>
   retryOperation alwaysBroken 2 2000 emptyLog =
     (Inl (Error ''Network down''), \<lparr>invocations = 1, waits = []\<rparr>) \<and>
   quotaFailure secondTimeLucky 0 \<and>
   retryOperation secondTimeLucky 2 2000 emptyLog =
     (Inr 7, \<lparr>invocations = 2, waits = [2000]\<rparr>)"
proof -
  have q: "\<forall>n<3. quotaFailure alwaysQuota n"
    by (simp add: quotaFailure_def alwaysQuota_def isQuota_quota429)
  have b: "(0::nat) < 3 \<and> (\<forall>n<0. quotaFailure alwaysBroken n) \<and>
      alwaysBroken 0 = Inl (Error ''Network down'') \<and> \<not> isQuotaError (Error ''Network down'')"
    by (simp add: alwaysBroken_def not_quota_network)
  have l: "(1::nat) < 3 \<and> (\<forall>n<1. quotaFailure secondTimeLucky n) \<and> secondTimeLucky 1 = Inr 7"
    by (simp add: secondTimeLucky_def quotaFailure_def quota_word)
  have r1: "retryOperation alwaysQuota 2 2000 emptyLog =
      (Inl usageLimitError, \<lparr>invocations = 3, waits = [2000, 4000]\<rparr>)"
    using retryOperation_policy [of alwaysQuota, THEN conjunct2, THEN conjunct1] q by blast
  have r2: "retryOperation alwaysBroken 2 2000 emptyLog =
      (Inl (Error ''Network down''), \<lparr>invocations = Suc 0, waits = take 0 [2000, 4000]\<rparr>)"
    using retryOperation_policy [of alwaysBroken, THEN conjunct2, THEN conjunct2,
        THEN conjunct1, rule_format, of 0 "Error ''Network down''"] b
    by blast
  have r3: "retryOperation secondTimeLucky 2 2000 emptyLog =
      (Inr 7, \<lparr>invocations = Suc 1, waits = take 1 [2000, 4000]\<rparr>)"
    using retryOperation_policy [of secondTimeLucky, THEN conjunct2, THEN conjunct2,
        THEN conjunct2, THEN conjunct1, rule_format, of 1 7] l
    by blast
  have l0: "quotaFailure secondTimeLucky 0"
    by (simp add: secondTimeLucky_def quotaFailure_def quota_word)
  from q have "quotaFailure alwaysQuota 0 \<and> quotaFailure alwaysQuota 1 \<and> quotaFailure alwaysQuota 2"
    by (simp add: all_less_3)
  with b l0 r1 r2 r3 show ?thesis by simp
qed

lemma not_quota_no_candidates: "\<not> isQuotaError (Error ''No candidates returned from Gemini.'')"
  by (simp add: isQuotaError_def Error_def messageIncludes_def)

lemma not_quota_no_parts: "\<not> isQuotaError (Error ''No content parts returned.'')"
  by (simp add: isQuotaError_def Error_def messageIncludes_def)

lemma not_quota_no_image: "\<not> isQuotaError (Error ''No image data found in response.'')"
  by (simp add: isQuotaError_def Error_def messageIncludes_def)

lemma find_inline_None:
  "find (\<lambda>p. inlineData p \<noteq> None) pl = None \<longleftrightarrow> (\<forall>p\<in>set pl. inlineData p = None)"
  by (auto simp: find_None_iff)

lemma single_no_candidates:
  assumes "ai ''gemini-2.5-flash-image'' ps = Inr response"
    and "candidates response = None \<or> candidates response = Some []"
  shows "generateSingleRequest ai ps = Inl (Error ''No candidates returned from Gemini.'')"
  using assms by (auto simp: generateSingleRequest_def)

lemma single_no_parts:
  assumes "ai ''gemini-2.5-flash-image'' ps = Inr response"
    and "candidates response = Some (c # cs)"
    and "content c = None \<or> content c = Some (Content None) \<or> content c = Some (Content (Some []))"
  shows "generateSingleRequest ai ps = Inl (Error ''No content parts returned.'')"
  using assms by (auto simp: generateSingleRequest_def)

lemma single_no_image:
  assumes "ai ''gemini-2.5-flash-image'' ps = Inr response"
    and "candidates response = Some (c # cs)"
    and "content c = Some (Content (Some pl))" and "pl \<noteq> []"
    and "\<forall>p\<in>set pl. inlineData p = None"
  shows "generateSingleRequest ai ps = Inl (Error ''No image data found in response.'')"
proof -
  from assms(5) have "find (\<lambda>p. inlineData p \<noteq> None) pl = None"
    by (rule find_inline_None [THEN iffD2])
  with assms(1-4) show ?thesis
    by (simp add: generateSingleRequest_def del: not_None_eq)
qed

lemma requests_nth:
  "i < 4 \<Longrightarrow> requests upstream ps ! i =
     retryOperation (\<lambda>n. generateSingleRequest (upstream i n) ps) 2 2000 emptyLog"
  by (simp add: requests_def del: upt_Suc)

lemma length_requests: "length (requests upstream ps) = 4"
  by (simp add: requests_def)

lemma validation_error:
  assumes "ai ''gemini-2.5-flash-image'' ps = Inr response"
    and "(candidates response = None \<or> candidates response = Some []) \<and>
           e = Error ''No candidates returned from Gemini.'' \<or>
         (\<exists>c cs. candidates response = Some (c # cs) \<and>
            (content c = None \<or> content c = Some (Content None) \<or>
             content c = Some (Content (Some []))) \<and>
            e = Error ''No content parts returned.'') \<or>
         (\<exists>c cs pl. candidates response = Some (c # cs) \<and>
            content c = Some (Content (Some pl)) \<and> pl \<noteq> [] \<and>
            (\<forall>p\<in>set pl. inlineData p = None) \<and>
            e = Error ''No image data found in response.'')"
  shows "generateSingleRequest ai ps = Inl e" and "\<not> isQuotaError e"
proof -
  from assms(2) consider
    (candidates) "candidates response = None \<or> candidates response = Some []"
      "e = Error ''No candidates returned from Gemini.''"
    | (parts) c cs where "candidates response = Some (c # cs)"
      "content c = None \<or> content c = Some (Content None) \<or>
       content c = Some (Content (Some []))"
      "e = Error ''No content parts returned.''"
    | (image) c cs pl where "candidates response = Some (c # cs)"
      "content c = Some (Content (Some pl))" "pl \<noteq> []" "\<forall>p\<in>set pl. inlineData p = None"
      "e = Error ''No image data found in response.''"
    by blast
  then have "generateSingleRequest ai ps = Inl e \<and> \<not> isQuotaError e"
  proof cases
    case candidates
    with assms(1) show ?thesis
      using single_no_candidates [of ai ps response] not_quota_no_candidates by simp
  next
    case parts
    with assms(1) show ?thesis
      using single_no_parts [of ai ps response c cs] not_quota_no_parts by simp
  next
    case image
    with assms(1) show ?thesis
      using single_no_image [of ai ps response c cs pl] not_quota_no_image by simp
  qed
  then show "generateSingleRequest ai ps = Inl e" and "\<not> isQuotaError e" by simp_all
qed

lemma rejected_at:
  assumes "i < 4" and "k < 3"
    and "\<forall>n<k. quotaFailure (\<lambda>n. generateSingleRequest (upstream i n) ps) n"
    and "generateSingleRequest (upstream i k) ps = Inl e" and "\<not> isQuotaError e"
  shows "requests upstream ps ! i =
     (Inl e, \<lparr>invocations = Suc k, waits = take k [2000, 4000]\<rparr>)"
  using assms default_run_rejected [of k "\<lambda>n. generateSingleRequest (upstream i n) ps" e]
  by (simp add: requests_nth)

text \<open>
  \<^bold>\<open>C8\<close> (response validation). Whenever an upstream response of request \<open>i\<close>, the one to
  its invocation \<open>k\<close>, has no candidates, or its first candidate has no content parts, or
  none of the parts carries inline data, \<^verbatim>\<open>generateSingleRequest\<close> fails with the
  corresponding validation error \<open>e\<close>. That error is not a quota error, and it is not
  retried: with any number of retries left, any delay and any log so far, the call chain
  ends at that invocation with \<open>e\<close>, without a further invocation or wait. So a request
  that receives the response at its invocation \<open>k\<close>, after \<open>k\<close> quota failures, settles as
  rejected with \<open>e\<close> after \<open>k + 1\<close> invocations.
\<close>

theorem validation_failure_not_retried:
  assumes "upstream i k ''gemini-2.5-flash-image'' ps = Inr response"
    and "(candidates response = None \<or> candidates response = Some []) \<and>
           e = Error ''No candidates returned from Gemini.'' \<or>
         (\<exists>c cs. candidates response = Some (c # cs) \<and>
            (content c = None \<or> content c = Some (Content None) \<or>
             content c = Some (Content (Some []))) \<and>
            e = Error ''No content parts returned.'') \<or>
         (\<exists>c cs pl. candidates response = Some (c # cs) \<and>
            content c = Some (Content (Some pl)) \<and> pl \<noteq> [] \<and>
            (\<forall>p\<in>set pl. inlineData p = None) \<and>
            e = Error ''No image data found in response.'')"
  shows
    "\<not> isQuotaError e \<and>
     generateSingleRequest (upstream i k) ps = Inl e \<and>
     (\<forall>maxRetries delay lg. invocations lg = k \<longrightarrow>
        retryOperation (\<lambda>n. generateSingleRequest (upstream i n) ps) maxRetries delay lg =
          (Inl e, lg\<lparr>invocations := Suc k\<rparr>)) \<and>
     (i < 4 \<and> k < 3 \<and>
      (\<forall>n<k. quotaFailure (\<lambda>n. generateSingleRequest (upstream i n) ps) n) \<longrightarrow>
        requests upstream ps ! i =
          (Inl e, \<lparr>invocations = Suc k, waits = take k [2000, 4000]\<rparr>))"
proof -
  note v = validation_error [of "upstream i k" ps response e, OF assms]
  have step: "retryOperation (\<lambda>n. generateSingleRequest (upstream i n) ps) maxRetries delay lg =
      (Inl e, lg\<lparr>invocations := Suc k\<rparr>)" if "invocations lg = k" for maxRetries delay lg
    using retry_not_quota
      [of "\<lambda>n. generateSingleRequest (upstream i n) ps" lg e maxRetries delay] v that
    by simp
  have settled: "requests upstream ps ! i =
      (Inl e, \<lparr>invocations = Suc k, waits = take k [2000, 4000]\<rparr>)"
    if "i < 4 \<and> k < 3 \<and>
      (\<forall>n<k. quotaFailure (\<lambda>n. generateSingleRequest (upstream i n) ps) n)"
    using that v rejected_at [of i k upstream ps e] by blast
  from v step settled show ?thesis by blast
qed

lemma map_filter_by_index:
  "map g (filter P xs) =
     map (\<lambda>i. g (xs ! i)) (filter (\<lambda>i. P (xs ! i)) [0..<length xs])"
proof -
  have "filter P xs = filter P (map ((!) xs) [0..<length xs])"
    by (simp add: map_nth)
  also have "\<dots> = map ((!) xs) (filter (\<lambda>i. P (xs ! i)) [0..<length xs])"
    by (simp add: filter_map comp_def)
  finally show ?thesis by (simp add: comp_def)
qed

lemma issued_with_key:
  "API_KEY \<noteq> [] \<Longrightarrow>
   issued (generateOrEditImage API_KEY upstream topic base) =
     requests upstream (buildParts topic base)"
  by (simp add: generateOrEditImage_def Let_def)

lemma returned_cases:
  assumes "API_KEY \<noteq> []"
    and "results = map fst (issued (generateOrEditImage API_KEY upstream topic base))"
  shows "returned (generateOrEditImage API_KEY upstream topic base) =
     (if filter isFulfilled results = [] then
        (case find isRejected results of
           Some (Inl reason) \<Rightarrow>
             if isFalsy reason then Inl (Error ''Generation failed.'') else Inl reason
         | _ \<Rightarrow> Inl (Error ''Generation failed.''))
      else Inr (map projr (filter isFulfilled results)))"
proof -
  from assms(1)
  have "issued (generateOrEditImage API_KEY upstream topic base) =
      requests upstream (buildParts topic base)"
    by (rule issued_with_key)
  with assms(2) have r: "results = map fst (requests upstream (buildParts topic base))"
    by simp
  show ?thesis
    unfolding r using assms(1) by (simp add: generateOrEditImage_def Let_def)
qed

text \<open>
  What \<^verbatim>\<open>generateOrEditImage\<close> throws is never falsy, so the \<^verbatim>\<open>error.message\<close> that
  \<^verbatim>\<open>handleGenerate\<close> reads in its \<^verbatim>\<open>catch\<close> block is a property of a value.
\<close>

lemma thrown_is_truthy:
  assumes "returned (generateOrEditImage API_KEY upstream topic base) = Inl e"
  shows "\<not> isFalsy e"
proof (cases "API_KEY = []")
  case True
  with assms have "e = Error ''API Key is missing in environment variables.''"
    by (simp add: generateOrEditImage_def)
  then show ?thesis by (simp add: isFalsy_def Error_def)
next
  case False
  define results where
    "results = map fst (issued (generateOrEditImage API_KEY upstream topic base))"
  have g: "\<not> isFalsy (Error ''Generation failed.'')" by (simp add: isFalsy_def Error_def)
  from returned_cases [OF False results_def] assms
  have "Inl e =
     (if filter isFulfilled results = [] then
        (case find isRejected results of
           Some (Inl reason) \<Rightarrow>
             if isFalsy reason then Inl (Error ''Generation failed.'') else Inl reason
         | _ \<Rightarrow> Inl (Error ''Generation failed.''))
      else Inr (map projr (filter isFulfilled results)))"
    by simp
  with g show ?thesis
    by (auto split: if_splits option.splits sum.splits)
qed

text \<open>
  \<^bold>\<open>C1\<close>, amended (fan-out). When the API key is configured, \<^verbatim>\<open>generateOrEditImage\<close>
  issues exactly 4 requests, request \<open>i\<close> being the retried single request against
  the upstream behaviour of index \<open>i\<close>; if \<open>k \<ge> 1\<close> of them are fulfilled, the call
  returns exactly \<open>k\<close> images, namely the values of the fulfilled requests in increasing
  index order.
\<close>

theorem fan_out_with_key:
  assumes "API_KEY \<noteq> []"
  shows
    "let run = generateOrEditImage API_KEY upstream topic base;
         ps = buildParts topic base;
         results = map fst (issued run);
         k = length (filter isFulfilled results)
     in length (issued run) = 4 \<and>
        (\<forall>i<4. issued run ! i =
           retryOperation (\<lambda>n. generateSingleRequest (upstream i n) ps) 2 2000 emptyLog) \<and>
        k \<le> 4 \<and>
        (1 \<le> k \<longrightarrow>
           (\<exists>imgs. returned run = Inr imgs \<and> length imgs = k \<and>
              imgs = map (\<lambda>i. projr (results ! i))
                       (filter (\<lambda>i. isFulfilled (results ! i)) [0..<4])))"
proof -
  define run where "run = generateOrEditImage API_KEY upstream topic base"
  define ps where "ps = buildParts topic base"
  define results where "results = map fst (issued run)"
  have iss: "issued run = requests upstream ps"
    unfolding run_def ps_def using assms by (rule issued_with_key)
  have len: "length results = 4"
    by (simp add: results_def iss length_requests)
  have c1: "length (issued run) = 4"
    by (simp add: iss length_requests)
  have c2: "\<forall>i<4. issued run ! i =
      retryOperation (\<lambda>n. generateSingleRequest (upstream i n) ps) 2 2000 emptyLog"
    by (simp add: iss requests_nth)
  have c3: "length (filter isFulfilled results) \<le> 4"
    using length_filter_le [of isFulfilled results] len by linarith
  have c4: "\<exists>imgs. returned run = Inr imgs \<and> length imgs = length (filter isFulfilled results) \<and>
      imgs = map (\<lambda>i. projr (results ! i)) (filter (\<lambda>i. isFulfilled (results ! i)) [0..<4])"
    if k: "1 \<le> length (filter isFulfilled results)"
  proof -
    from k have ne: "filter isFulfilled results \<noteq> []" by auto
    have "returned run = Inr (map projr (filter isFulfilled results))"
      using returned_cases [OF assms, of results upstream topic base] ne
      by (simp add: results_def run_def)
    moreover have "map projr (filter isFulfilled results) =
        map (\<lambda>i. projr (results ! i)) (filter (\<lambda>i. isFulfilled (results ! i)) [0..<4])"
      using map_filter_by_index [of projr isFulfilled results] by (simp only: len)
    moreover have "length (map projr (filter isFulfilled results)) =
        length (filter isFulfilled results)"
      by (rule length_map)
    ultimately show ?thesis by metis
  qed
  from c1 c2 c3 c4 show ?thesis
    unfolding Let_def run_def [symmetric] ps_def [symmetric] results_def [symmetric]
    by blast
qed

text \<open>
  \<^bold>\<open>C1\<close> as stated fails: without an API key the call throws before any request is
  issued, even when the service would answer every request.
\<close>

theorem missing_key_issues_nothing:
  "length (issued (generateOrEditImage [] healthy sunset None)) \<noteq> 4"
  by (simp add: generateOrEditImage_def)

lemma failure_with_key:
  assumes "API_KEY \<noteq> []"
  shows
    "let run = generateOrEditImage API_KEY upstream topic base;
         results = map fst (issued run)
     in ((\<forall>i<4. isRejected (results ! i)) \<longrightarrow>
           (\<exists>reason. results ! 0 = Inl reason \<and>
              (\<not> isFalsy reason \<longrightarrow> returned run = Inl reason) \<and>
              (isFalsy reason \<longrightarrow> returned run = Inl (Error ''Generation failed.'')))) \<and>
        ((\<exists>i<4. isFulfilled (results ! i)) \<longrightarrow> isFulfilled (returned run))"
proof -
  define run where "run = generateOrEditImage API_KEY upstream topic base"
  define results where "results = map fst (issued run)"
  have iss: "issued run = requests upstream (buildParts topic base)"
    unfolding run_def using assms by (rule issued_with_key)
  have len: "length results = 4"
    by (simp add: results_def iss length_requests)
  have ret: "returned run =
     (if filter isFulfilled results = [] then
        (case find isRejected results of
           Some (Inl reason) \<Rightarrow>
             if isFalsy reason then Inl (Error ''Generation failed.'') else Inl reason
         | _ \<Rightarrow> Inl (Error ''Generation failed.''))
      else Inr (map projr (filter isFulfilled results)))"
    unfolding run_def using assms
    by (rule returned_cases) (simp add: results_def run_def)
  have a: "\<exists>reason. results ! 0 = Inl reason \<and>
      (\<not> isFalsy reason \<longrightarrow> returned run = Inl reason) \<and>
      (isFalsy reason \<longrightarrow> returned run = Inl (Error ''Generation failed.''))"
    if all: "\<forall>i<4. isRejected (results ! i)"
  proof -
    from len obtain r rs where rs: "results = r # rs" by (cases results) auto
    from all have "isRejected (results ! 0)" by simp
    with rs obtain reason where r: "r = Inl reason"
      by (cases r) (auto simp: isRejected_def)
    have "\<not> isFulfilled x" if "x \<in> set results" for x
    proof -
      from that obtain i where "i < length results" "x = results ! i"
        by (metis in_set_conv_nth)
      with all len have "isRejected x" by simp
      then show ?thesis by (cases x) (simp_all add: isRejected_def isFulfilled_def)
    qed
    then have "filter isFulfilled results = []" by (simp add: filter_empty_conv)
    with ret have "returned run =
        (case find isRejected results of
           Some (Inl reason) \<Rightarrow>
             if isFalsy reason then Inl (Error ''Generation failed.'') else Inl reason
         | _ \<Rightarrow> Inl (Error ''Generation failed.''))"
      by simp
    also have "\<dots> = (if isFalsy reason then Inl (Error ''Generation failed.'') else Inl reason)"
      by (simp add: rs r isRejected_def)
    finally have "returned run =
        (if isFalsy reason then Inl (Error ''Generation failed.'') else Inl reason)" .
    moreover have "results ! 0 = Inl reason" by (simp add: rs r)
    ultimately show ?thesis by simp
  qed
  have b: "isFulfilled (returned run)" if ex: "\<exists>i<4. isFulfilled (results ! i)"
  proof -
    from ex obtain i where i: "i < 4" "isFulfilled (results ! i)" by blast
    with len have "results ! i \<in> set results" by (metis nth_mem)
    with i(2) have "filter isFulfilled results \<noteq> []"
      by (auto simp: filter_empty_conv)
    with ret show ?thesis by (simp add: isFulfilled_def)
  qed
  from a b show ?thesis
    unfolding Let_def run_def [symmetric] results_def [symmetric] by blast
qed

lemma issued_without_key:
  "issued (generateOrEditImage [] upstream topic base) = []"
  by (simp add: generateOrEditImage_def)

text \<open>
  \<^bold>\<open>C3\<close>, amended (total and partial failure). If the 4 requests of a call all settle as
  rejected, the call throws the reason of request 0, the first in index order, when that
  reason is a truthy value, and the generic error \<^verbatim>\<open>Generation failed.\<close> when it is falsy;
  if at least one request of the call is fulfilled, the call returns normally.
\<close>

theorem first_indexed_failure:
  "let run = generateOrEditImage API_KEY upstream topic base;
       results = map fst (issued run)
   in (length results = 4 \<and> (\<forall>i<4. isRejected (results ! i)) \<longrightarrow>
         (\<exists>reason. results ! 0 = Inl reason \<and>
            (\<not> isFalsy reason \<longrightarrow> returned run = Inl reason) \<and>
            (isFalsy reason \<longrightarrow> returned run = Inl (Error ''Generation failed.'')))) \<and>
      ((\<exists>i<length results. isFulfilled (results ! i)) \<longrightarrow> isFulfilled (returned run))"
proof (cases "API_KEY = []")
  case True
  then show ?thesis by (simp add: Let_def issued_without_key)
next
  case False
  then have "length (map fst (issued (generateOrEditImage API_KEY upstream topic base))) = 4"
    by (simp add: issued_with_key length_requests)
  with failure_with_key [OF False, of upstream topic base] show ?thesis
    unfolding Let_def by metis
qed

lemma upt_0_4: "[0..<4] = [0, 1, 2, 3]"
  by (simp add: upt_conv_Cons)

lemma single_picture:
  "ai ''gemini-2.5-flash-image'' ps = Inr (pictureResponse b) \<Longrightarrow>
   generateSingleRequest ai ps = Inr (picture b)"
  by (simp add: generateSingleRequest_def pictureResponse_def picture_def Let_def)

lemma single_thrown:
  "ai ''gemini-2.5-flash-image'' ps = Inl e \<Longrightarrow> generateSingleRequest ai ps = Inl e"
  by (simp add: generateSingleRequest_def)

lemma not_quota_fetch: "\<not> isQuotaError (Error ''Failed to fetch'')"
  by (simp add: isQuotaError_def Error_def messageIncludes_def)

lemma not_quota_reset: "\<not> isQuotaError (Error ''Connection reset'')"
  by (simp add: isQuotaError_def Error_def messageIncludes_def)

lemma first_try_fulfilled:
  "operation 0 = Inr v \<Longrightarrow>
   retryOperation operation 2 2000 emptyLog = (Inr v, \<lparr>invocations = 1, waits = []\<rparr>)"
  using default_run_fulfilled [of 0 operation v] by simp

lemma first_try_rejected:
  "operation 0 = Inl e \<Longrightarrow> \<not> isQuotaError e \<Longrightarrow>
   retryOperation operation 2 2000 emptyLog = (Inl e, \<lparr>invocations = 1, waits = []\<rparr>)"
  using default_run_rejected [of 0 operation e] by simp

lemma results_flaky:
  "map fst (requests flaky ps) =
     [Inl (Error ''Failed to fetch''), Inr (picture ''QUFB''),
      Inl (Error ''Failed to fetch''), Inr (picture ''QkJC'')]"
proof -
  have 0: "generateSingleRequest (flaky 0 0) ps = Inl (Error ''Failed to fetch'')"
    by (rule single_thrown) (simp add: flaky_def)
  have 1: "generateSingleRequest (flaky (Suc 0) 0) ps = Inr (picture ''QUFB'')"
    by (rule single_picture) (simp add: flaky_def)
  have 2: "generateSingleRequest (flaky 2 0) ps = Inl (Error ''Failed to fetch'')"
    by (rule single_thrown) (simp add: flaky_def)
  have 3: "generateSingleRequest (flaky 3 0) ps = Inr (picture ''QkJC'')"
    by (rule single_picture) (simp add: flaky_def)
  show ?thesis
    unfolding requests_def upt_0_4
    by (simp add: first_try_fulfilled first_try_rejected 0 1 2 3 not_quota_fetch)
qed

lemma results_broken:
  "map fst (requests broken ps) =
     [Inl (Error ''Connection reset''), Inl (Error ''Failed to fetch''),
      Inl (Error ''Failed to fetch''), Inl (Error ''Failed to fetch'')]"
proof -
  have 0: "generateSingleRequest (broken 0 0) ps = Inl (Error ''Connection reset'')"
    by (rule single_thrown) (simp add: broken_def)
  have 1: "generateSingleRequest (broken (Suc 0) 0) ps = Inl (Error ''Failed to fetch'')"
    by (rule single_thrown) (simp add: broken_def)
  have 2: "generateSingleRequest (broken 2 0) ps = Inl (Error ''Failed to fetch'')"
    by (rule single_thrown) (simp add: broken_def)
  have 3: "generateSingleRequest (broken 3 0) ps = Inl (Error ''Failed to fetch'')"
    by (rule single_thrown) (simp add: broken_def)
  show ?thesis
    unfolding requests_def upt_0_4
    by (simp add: first_try_rejected 0 1 2 3 not_quota_fetch not_quota_reset)
qed

lemma not_quota_falsy: "\<not> isQuotaError (Falsy v)"
  by (simp add: isQuotaError_def messageIncludes_def)

lemma results_silentFirst:
  "map fst (requests silentFirst ps) =
     [Inl (Falsy Undefined), Inl (Error ''Failed to fetch''),
      Inl (Error ''Failed to fetch''), Inl (Error ''Failed to fetch'')]"
proof -
  have 0: "generateSingleRequest (silentFirst 0 0) ps = Inl (Falsy Undefined)"
    by (rule single_thrown) (simp add: silentFirst_def)
  have 1: "generateSingleRequest (silentFirst (Suc 0) 0) ps = Inl (Error ''Failed to fetch'')"
    by (rule single_thrown) (simp add: silentFirst_def)
  have 2: "generateSingleRequest (silentFirst 2 0) ps = Inl (Error ''Failed to fetch'')"
    by (rule single_thrown) (simp add: silentFirst_def)
  have 3: "generateSingleRequest (silentFirst 3 0) ps = Inl (Error ''Failed to fetch'')"
    by (rule single_thrown) (simp add: silentFirst_def)
  show ?thesis
    unfolding requests_def upt_0_4
    by (simp add: first_try_rejected 0 1 2 3 not_quota_fetch not_quota_falsy)
qed

text \<open>
  \<^bold>\<open>C3\<close> as stated fails: all four requests are rejected, request 0 with the falsy value
  \<^verbatim>\<open>undefined\<close>, and the call throws the generic error, not the reason of request 0.
\<close>

theorem falsy_reason_not_surfaced:
  "map fst (issued (generateOrEditImage ''k3y'' silentFirst sunset None)) =
     [Inl (Falsy Undefined), Inl (Error ''Failed to fetch''),
      Inl (Error ''Failed to fetch''), Inl (Error ''Failed to fetch'')] \<and>
   returned (generateOrEditImage ''k3y'' silentFirst sunset None) =
     Inl (Error ''Generation failed.'') \<and>
   returned (generateOrEditImage ''k3y'' silentFirst sunset None) \<noteq> Inl (Falsy Undefined)"
proof -
  have key: "''k3y'' \<noteq> []" by simp
  have r: "map fst (issued (generateOrEditImage ''k3y'' silentFirst sunset None)) =
     [Inl (Falsy Undefined), Inl (Error ''Failed to fetch''),
      Inl (Error ''Failed to fetch''), Inl (Error ''Failed to fetch'')]"
    by (simp only: issued_with_key [OF key] results_silentFirst)
  have "returned (generateOrEditImage ''k3y'' silentFirst sunset None) =
      Inl (Error ''Generation failed.'')"
    using returned_cases [OF key r [symmetric]]
    by (simp add: isFulfilled_def isRejected_def isFalsy_def)
  with r show ?thesis by (simp add: Error_def)
qed

text \<open>Requests 1 and 3 succeed, 0 and 2 fail: two images, in index order.\<close>

theorem fan_out_with_key_witness:
  "''k3y'' \<noteq> [] \<and>
   length (issued (generateOrEditImage ''k3y'' flaky sunset None)) = 4 \<and>
   1 \<le> length (filter isFulfilled
         (map fst (issued (generateOrEditImage ''k3y'' flaky sunset None)))) \<and>
   returned (generateOrEditImage ''k3y'' flaky sunset None) =
     Inr [picture ''QUFB'', picture ''QkJC'']"
proof -
  have key: "''k3y'' \<noteq> []" by simp
  have res: "map fst (issued (generateOrEditImage ''k3y'' flaky sunset None)) =
     [Inl (Error ''Failed to fetch''), Inr (picture ''QUFB''),
      Inl (Error ''Failed to fetch''), Inr (picture ''QkJC'')]"
    by (simp only: issued_with_key [OF key] results_flaky)
  show ?thesis
    using fan_out_with_key [OF key, of flaky sunset None]
    unfolding Let_def res
    by (simp add: isFulfilled_def upt_0_4)
qed

text \<open>
  All four requests fail: with an error object as the reason of request 0, that reason is
  thrown; with \<^verbatim>\<open>undefined\<close> as its reason, the generic error is. A run with two failures
  and two successes returns normally.
\<close>

theorem first_indexed_failure_witness:
  "map fst (issued (generateOrEditImage ''k3y'' broken sunset None)) =
     [Inl (Error ''Connection reset''), Inl (Error ''Failed to fetch''),
      Inl (Error ''Failed to fetch''), Inl (Error ''Failed to fetch'')] \<and>
   \<not> isFalsy (Error ''Connection reset'') \<and>
   returned (generateOrEditImage ''k3y'' broken sunset None) =
     Inl (Error ''Connection reset'') \<and>
   map fst (issued (generateOrEditImage ''k3y'' silentFirst sunset None)) =
     [Inl (Falsy Undefined), Inl (Error ''Failed to fetch''),
      Inl (Error ''Failed to fetch''), Inl (Error ''Failed to fetch'')] \<and>
   isFalsy (Falsy Undefined) \<and>
   returned (generateOrEditImage ''k3y'' silentFirst sunset None) =
     Inl (Error ''Generation failed.'') \<and>
   map fst (issued (generateOrEditImage ''k3y'' flaky sunset None)) =
     [Inl (Error ''Failed to fetch''), Inr (picture ''QUFB''),
      Inl (Error ''Failed to fetch''), Inr (picture ''QkJC'')] \<and>
   isFulfilled (returned (generateOrEditImage ''k3y'' flaky sunset None))"
proof -
  have key: "''k3y'' \<noteq> []" by simp
  have rb: "map fst (issued (generateOrEditImage ''k3y'' broken sunset None)) =
     [Inl (Error ''Connection reset''), Inl (Error ''Failed to fetch''),
      Inl (Error ''Failed to fetch''), Inl (Error ''Failed to fetch'')]"
    by (simp only: issued_with_key [OF key] results_broken)
  have rs: "map fst (issued (generateOrEditImage ''k3y'' silentFirst sunset None)) =
     [Inl (Falsy Undefined), Inl (Error ''Failed to fetch''),
      Inl (Error ''Failed to fetch''), Inl (Error ''Failed to fetch'')]"
    by (simp only: issued_with_key [OF key] results_silentFirst)
  have rf: "map fst (issued (generateOrEditImage ''k3y'' flaky sunset None)) =
     [Inl (Error ''Failed to fetch''), Inr (picture ''QUFB''),
      Inl (Error ''Failed to fetch''), Inr (picture ''QkJC'')]"
    by (simp only: issued_with_key [OF key] results_flaky)
  have allrej: "\<forall>i<4. isRejected
      ([Inl e0, Inl e1, Inl e2, Inl e3] ! i :: js_error + ImageData)" for e0 e1 e2 e3
    by (simp add: isRejected_def less_Suc_eq numeral_Bit0 numeral_Bit1 nth_Cons')
  have someful: "\<exists>i<length
      [Inl (Error ''Failed to fetch''), Inr (picture ''QUFB''),
       Inl (Error ''Failed to fetch''), Inr (picture ''QkJC'')]. isFulfilled
      ([Inl (Error ''Failed to fetch''), Inr (picture ''QUFB''),
        Inl (Error ''Failed to fetch''), Inr (picture ''QkJC'')] ! i)"
    by (rule exI [of _ 1]) (simp add: isFulfilled_def)
  have t: "\<not> isFalsy (Error ''Connection reset'')" "isFalsy (Falsy Undefined)"
    by (simp_all add: isFalsy_def Error_def)
  have b: "returned (generateOrEditImage ''k3y'' broken sunset None) =
      Inl (Error ''Connection reset'')"
    using first_indexed_failure [of "''k3y''" broken sunset None] allrej t
    unfolding Let_def rb by simp
  have s: "returned (generateOrEditImage ''k3y'' silentFirst sunset None) =
      Inl (Error ''Generation failed.'')"
    using first_indexed_failure [of "''k3y''" silentFirst sunset None] allrej t
    unfolding Let_def rs by simp
  have f: "isFulfilled (returned (generateOrEditImage ''k3y'' flaky sunset None))"
    using first_indexed_failure [of "''k3y''" flaky sunset None] someful
    unfolding Let_def rf by blast
  from rb rs rf t b s f show ?thesis by simp
qed

text \<open>
  The three validation failures as the first response of a request, and an empty
  candidate list as the response to the retry that follows a quota failure.
\<close>

theorem validation_failure_not_retried_witness:
  "requests noCandidates [] ! 2 =
     (Inl (Error ''No candidates returned from Gemini.''), \<lparr>invocations = 1, waits = []\<rparr>) \<and>
   requests noContent [] ! 0 =
     (Inl (Error ''No content parts returned.''), \<lparr>invocations = 1, waits = []\<rparr>) \<and>
   requests textOnly [] ! 3 =
     (Inl (Error ''No image data found in response.''), \<lparr>invocations = 1, waits = []\<rparr>) \<and>
   quotaFailure (\<lambda>n. generateSingleRequest (quotaThenEmpty 1 n) []) 0 \<and>
   requests quotaThenEmpty [] ! 1 =
     (Inl (Error ''No candidates returned from Gemini.''),
      \<lparr>invocations = 2, waits = [2000]\<rparr>) \<and>
   retryOperation (\<lambda>n. generateSingleRequest (quotaThenEmpty 1 n) []) 1 4000
       \<lparr>invocations = 1, waits = [2000]\<rparr> =
     (Inl (Error ''No candidates returned from Gemini.''),
      \<lparr>invocations = 2, waits = [2000]\<rparr>)"
proof -
  have a: "noCandidates 2 0 ''gemini-2.5-flash-image'' [] =
      Inr (GenerateContentResponse (Some []) None)"
    by (simp add: noCandidates_def)
  have a': "(candidates (GenerateContentResponse (Some []) None) = None \<or>
      candidates (GenerateContentResponse (Some []) None) = Some []) \<and>
      Error ''No candidates returned from Gemini.'' = Error ''No candidates returned from Gemini.''"
    by simp
  have b: "noContent 0 0 ''gemini-2.5-flash-image'' [] =
      Inr (GenerateContentResponse (Some [Candidate None]) None)"
    by (simp add: noContent_def)
  have b': "\<exists>c cs. candidates (GenerateContentResponse (Some [Candidate None]) None) =
        Some (c # cs) \<and>
      (content c = None \<or> content c = Some (Content None) \<or>
       content c = Some (Content (Some []))) \<and>
      Error ''No content parts returned.'' = Error ''No content parts returned.''"
    by simp
  have c: "textOnly 3 0 ''gemini-2.5-flash-image'' [] =
      Inr (GenerateContentResponse
       (Some [Candidate (Some (Content (Some [ResponsePart None, ResponsePart None])))])
       (Some (utf16 ''A banner'')))"
    by (simp add: textOnly_def)
  have c': "\<exists>c cs pl. candidates (GenerateContentResponse
       (Some [Candidate (Some (Content (Some [ResponsePart None, ResponsePart None])))])
       (Some (utf16 ''A banner''))) = Some (c # cs) \<and>
      content c = Some (Content (Some pl)) \<and> pl \<noteq> [] \<and>
      (\<forall>p\<in>set pl. inlineData p = None) \<and>
      Error ''No image data found in response.'' = Error ''No image data found in response.''"
    by simp
  have d: "quotaThenEmpty 1 1 ''gemini-2.5-flash-image'' [] =
      Inr (GenerateContentResponse (Some []) None)"
    by (simp add: quotaThenEmpty_def)
  have q: "quotaFailure (\<lambda>n. generateSingleRequest (quotaThenEmpty 1 n) []) 0"
    by (simp add: quotaFailure_def generateSingleRequest_def quotaThenEmpty_def
        isQuota_quota429)
  have r1: "requests noCandidates [] ! 2 =
     (Inl (Error ''No candidates returned from Gemini.''), \<lparr>invocations = 1, waits = []\<rparr>)"
    using validation_failure_not_retried [where i = 2 and k = 0 and upstream = noCandidates
        and ps = "[]" and e = "Error ''No candidates returned from Gemini.''", OF a]
      a'
    by simp
  have r2: "requests noContent [] ! 0 =
     (Inl (Error ''No content parts returned.''), \<lparr>invocations = 1, waits = []\<rparr>)"
    using validation_failure_not_retried [where i = 0 and k = 0 and upstream = noContent
        and ps = "[]" and e = "Error ''No content parts returned.''", OF b]
      b'
    by simp
  have r3: "requests textOnly [] ! 3 =
     (Inl (Error ''No image data found in response.''), \<lparr>invocations = 1, waits = []\<rparr>)"
    using validation_failure_not_retried [where i = 3 and k = 0 and upstream = textOnly
        and ps = "[]" and e = "Error ''No image data found in response.''", OF c]
      c'
    by simp
  note t = validation_failure_not_retried [where i = 1 and k = 1 and upstream = quotaThenEmpty
      and ps = "[]" and e = "Error ''No candidates returned from Gemini.''", OF d]
  have r4: "requests quotaThenEmpty [] ! 1 =
     (Inl (Error ''No candidates returned from Gemini.''),
      \<lparr>invocations = 2, waits = [2000]\<rparr>)"
    using t a' q by (simp add: all_less_1)
  have r5: "retryOperation (\<lambda>n. generateSingleRequest (quotaThenEmpty 1 n) []) 1 4000
       \<lparr>invocations = 1, waits = [2000]\<rparr> =
     (Inl (Error ''No candidates returned from Gemini.''),
      \<lparr>invocations = 2, waits = [2000]\<rparr>)"
    using t [THEN conjunct2, THEN conjunct2, THEN conjunct1, rule_format,
        of "\<lparr>invocations = 1, waits = [2000]\<rparr>" 1 4000] a'
    by simp
  from r1 r2 r3 q r4 r5 show ?thesis by simp
qed

section \<open>Properties of the editor\<close>

lemma slice_0_negative: "e < 0 \<Longrightarrow> slice xs 0 e = take (nat (int (length xs) + e)) xs"
  by (simp add: slice_def Let_def max_def)

lemma inv_onPaintEnd: "historyInvariant s \<Longrightarrow> historyInvariant (onPaintEnd canvas s)"
  by (simp add: onPaintEnd_def historyInvariant_def Let_def)

lemma inv_onPaintStart: "historyInvariant s \<Longrightarrow> historyInvariant (onPaintStart s)"
  by (simp add: onPaintStart_def historyInvariant_def)

lemma inv_undoPaint: "historyInvariant s \<Longrightarrow> historyInvariant (undoPaint s)"
  by (auto simp: undoPaint_def historyInvariant_def)

lemma inv_redoPaint: "historyInvariant s \<Longrightarrow> historyInvariant (redoPaint s)"
  by (auto simp: redoPaint_def historyInvariant_def)

lemma inv_startPainting: "historyInvariant s \<Longrightarrow> historyInvariant (startPainting s)"
  by (auto simp: startPainting_def historyInvariant_def Let_def split: option.splits)

lemma inv_handleSavePaint: "historyInvariant s \<Longrightarrow> historyInvariant (handleSavePaint canvas s)"
  by (auto simp: handleSavePaint_def historyInvariant_def Let_def split: option.splits)

lemma inv_handleCancelPaint: "historyInvariant (handleCancelPaint s)"
  by (simp add: handleCancelPaint_def historyInvariant_def)

text \<open>
  \<^bold>\<open>C5\<close> (history invariant). \<open>historyInvariant\<close> says that a non-empty history has
  \<open>0 \<le> historyStep < length paintHistory\<close>. It holds in the freshly mounted editor and
  is preserved by session start, pointer down, stroke commit, undo, redo, save and
  cancel. Undo does nothing at the earliest entry and redo nothing at the latest; session
  start seeds an empty history with the base image at step 0; cancel clears the history,
  and save either clears it or changes nothing.
\<close>

theorem history_invariant_preserved:
  "historyInvariant initialEditor \<and>
   (historyInvariant s \<longrightarrow>
      historyInvariant (startPainting s) \<and>
      historyInvariant (onPaintStart s) \<and>
      historyInvariant (onPaintEnd canvas s) \<and>
      historyInvariant (undoPaint s) \<and>
      historyInvariant (redoPaint s) \<and>
      historyInvariant (handleSavePaint canvas s) \<and>
      historyInvariant (handleCancelPaint s)) \<and>
   (historyStep s \<le> 0 \<longrightarrow> undoPaint s = s) \<and>
   (historyStep s \<ge> int (length (paintHistory s)) - 1 \<longrightarrow> redoPaint s = s) \<and>
   (originalImage s \<noteq> None \<and> paintHistory s = [] \<longrightarrow>
      paintHistory (startPainting s) = [url (the (originalImage s))] \<and>
      historyStep (startPainting s) = 0) \<and>
   paintHistory (handleCancelPaint s) = [] \<and>
   (handleSavePaint canvas s = s \<or> paintHistory (handleSavePaint canvas s) = [])"
proof -
  have init: "historyInvariant initialEditor"
    by (simp add: historyInvariant_def initialEditor_def)
  have undo_noop: "historyStep s \<le> 0 \<longrightarrow> undoPaint s = s"
    by (simp add: undoPaint_def)
  have redo_noop: "historyStep s \<ge> int (length (paintHistory s)) - 1 \<longrightarrow> redoPaint s = s"
    by (simp add: redoPaint_def)
  have seed: "originalImage s \<noteq> None \<and> paintHistory s = [] \<longrightarrow>
      paintHistory (startPainting s) = [url (the (originalImage s))] \<and>
      historyStep (startPainting s) = 0"
    by (auto simp: startPainting_def Let_def)
  have cancel: "paintHistory (handleCancelPaint s) = []"
    by (simp add: handleCancelPaint_def)
  have save: "handleSavePaint canvas s = s \<or> paintHistory (handleSavePaint canvas s) = []"
    by (simp add: handleSavePaint_def Let_def split: option.splits)
  show ?thesis
    using init undo_noop redo_noop seed cancel save
      inv_startPainting [of s] inv_onPaintStart [of s] inv_onPaintEnd [of s canvas]
      inv_undoPaint [of s] inv_redoPaint [of s] inv_handleSavePaint [of s canvas]
      inv_handleCancelPaint [of s]
    by blast
qed

lemma stroke_painting:
  assumes "isPainting s" "0 \<le> historyStep s"
  shows "stroke u s =
     s\<lparr>isDrawing := False,
       paintHistory := take (nat (historyStep s + 1)) (paintHistory s) @ [u],
       historyStep := int (length (take (nat (historyStep s + 1)) (paintHistory s)))\<rparr>"
  using assms by (simp add: stroke_def onPaintStart_def onPaintEnd_def Let_def slice_0_take)

lemma stroke_at_end:
  assumes "isPainting s" "paintHistory s \<noteq> []"
    "historyStep s = int (length (paintHistory s)) - 1"
  shows "isPainting (stroke u s) \<and> paintHistory (stroke u s) = paintHistory s @ [u] \<and>
     historyStep (stroke u s) = int (length (paintHistory (stroke u s))) - 1"
proof -
  from assms(2) have "0 < length (paintHistory s)" by simp
  with assms(3) have "0 \<le> historyStep s" "nat (historyStep s + 1) = length (paintHistory s)"
    by simp_all
  with assms(1) show ?thesis by (simp add: stroke_painting)
qed

lemma fold_stroke:
  assumes "isPainting s" "paintHistory s \<noteq> []"
    "historyStep s = int (length (paintHistory s)) - 1"
  shows "isPainting (fold stroke us s) \<and>
     paintHistory (fold stroke us s) = paintHistory s @ us \<and>
     historyStep (fold stroke us s) = int (length (paintHistory (fold stroke us s))) - 1"
  using assms
proof (induction us arbitrary: s)
  case Nil
  then show ?case by simp
next
  case (Cons u us)
  from stroke_at_end [OF Cons.prems, of u]
  have 1: "isPainting (stroke u s)" "paintHistory (stroke u s) = paintHistory s @ [u]"
    "historyStep (stroke u s) = int (length (paintHistory (stroke u s))) - 1"
    by simp_all
  from 1(2) have 2: "paintHistory (stroke u s) \<noteq> []" by simp
  from Cons.IH [OF 1(1) 2 1(3)] 1(2) show ?case by simp
qed

lemma undo_funpow:
  "0 \<le> historyStep s \<Longrightarrow>
   (undoPaint ^^ k) s = s\<lparr>historyStep := max 0 (historyStep s - int k)\<rparr>"
proof (induction k)
  case 0
  then show ?case by simp
next
  case (Suc k)
  then show ?case by (auto simp: undoPaint_def max_def)
qed

lemma redo_funpow:
  "historyStep s \<le> int (length (paintHistory s)) - 1 \<Longrightarrow>
   (redoPaint ^^ k) s =
     s\<lparr>historyStep := min (int (length (paintHistory s)) - 1) (historyStep s + int k)\<rparr>"
proof (induction k)
  case 0
  then show ?case by simp
next
  case (Suc k)
  then show ?case by (auto simp: redoPaint_def min_def)
qed

text \<open>
  \<^bold>\<open>C4\<close> (undo and redo). In a paint session seeded with one snapshot, after the \<open>N\<close>
  strokes \<open>us\<close> the history is the seed followed by \<open>us\<close> with the pointer at \<open>N\<close>;
  \<open>N\<close> undos leave the history as it is and put the pointer on the seed; \<open>N\<close> redos
  from there restore the state after the strokes, the pointer on the last stroke. A stroke
  committed after \<open>M \<le> N\<close> undos keeps the first \<open>historyStep + 1\<close> entries, appends the
  new snapshot (length \<open>historyStep + 1 + 1\<close>) and moves the pointer to it.
\<close>

theorem undo_redo_history:
  assumes "isPainting s0" and "paintHistory s0 = [seed]" and "historyStep s0 = 0"
  shows
    "let N = length us; sN = fold stroke us s0 in
       paintHistory sN = seed # us \<and> historyStep sN = int N \<and>
       paintHistory ((undoPaint ^^ N) sN) = seed # us \<and>
       currentSnapshot ((undoPaint ^^ N) sN) = Some seed \<and>
       (redoPaint ^^ N) ((undoPaint ^^ N) sN) = sN \<and>
       currentSnapshot ((redoPaint ^^ N) ((undoPaint ^^ N) sN)) = Some (last (seed # us)) \<and>
       (\<forall>M u. M \<le> N \<longrightarrow>
          (let sM = (undoPaint ^^ M) sN; s' = stroke u sM in
             historyStep sM = int N - int M \<and>
             paintHistory s' = take (N - M + 1) (seed # us) @ [u] \<and>
             int (length (paintHistory s')) = (historyStep sM + 1) + 1 \<and>
             historyStep s' = int (length (paintHistory s')) - 1 \<and>
             currentSnapshot s' = Some u))"
proof -
  define N where "N = length us"
  define sN where "sN = fold stroke us s0"
  from assms have "isPainting s0" "paintHistory s0 \<noteq> []"
    "historyStep s0 = int (length (paintHistory s0)) - 1"
    by simp_all
  from fold_stroke [OF this, of us] assms(2)
  have p: "isPainting sN" and h: "paintHistory sN = seed # us" and st: "historyStep sN = int N"
    by (simp_all add: sN_def N_def)
  have undo: "(undoPaint ^^ M) sN = sN\<lparr>historyStep := int N - int M\<rparr>" if "M \<le> N" for M
    using that undo_funpow [of sN M] st by (simp add: max_def)
  have c3: "paintHistory ((undoPaint ^^ N) sN) = seed # us"
    by (simp add: undo h)
  have c4: "currentSnapshot ((undoPaint ^^ N) sN) = Some seed"
    by (simp add: undo h currentSnapshot_def)
  have restored: "(redoPaint ^^ N) ((undoPaint ^^ N) sN) = sN"
    using redo_funpow [of "sN\<lparr>historyStep := 0\<rparr>" N] st
    by (simp add: undo h N_def)
  have c6: "currentSnapshot sN = Some (last (seed # us))"
    using h st by (simp add: currentSnapshot_def N_def last_conv_nth)
  have c7: "historyStep ((undoPaint ^^ M) sN) = int N - int M \<and>
      paintHistory (stroke u ((undoPaint ^^ M) sN)) = take (N - M + 1) (seed # us) @ [u] \<and>
      int (length (paintHistory (stroke u ((undoPaint ^^ M) sN)))) =
        (historyStep ((undoPaint ^^ M) sN) + 1) + 1 \<and>
      historyStep (stroke u ((undoPaint ^^ M) sN)) =
        int (length (paintHistory (stroke u ((undoPaint ^^ M) sN)))) - 1 \<and>
      currentSnapshot (stroke u ((undoPaint ^^ M) sN)) = Some u"
    if "M \<le> N" for M u
  proof -
    let ?sM = "sN\<lparr>historyStep := int N - int M\<rparr>"
    define pre where "pre = take (N - M + 1) (seed # us)"
    from that have n: "nat (int N - int M + 1) = N - M + 1" by simp
    have l: "length pre = N - M + 1"
      using that by (simp add: pre_def N_def)
    have "isPainting ?sM" "0 \<le> historyStep ?sM" using p that by simp_all
    from stroke_painting [OF this, of u]
    have s': "stroke u ?sM =
        ?sM\<lparr>isDrawing := False, paintHistory := pre @ [u], historyStep := int (length pre)\<rparr>"
      by (simp add: h n pre_def)
    have "historyStep ?sM = int N - int M \<and>
      paintHistory (stroke u ?sM) = pre @ [u] \<and>
      int (length (paintHistory (stroke u ?sM))) = (historyStep ?sM + 1) + 1 \<and>
      historyStep (stroke u ?sM) = int (length (paintHistory (stroke u ?sM))) - 1 \<and>
      currentSnapshot (stroke u ?sM) = Some u"
    proof -
      from that l have "nat (1 + (int N - int M)) = length pre" by simp
      then have "(pre @ [u]) ! nat (1 + (int N - int M)) = u" by simp
      then show ?thesis
        unfolding s' using that by (simp add: l currentSnapshot_def)
    qed
    then show ?thesis
      unfolding undo [OF that] pre_def .
  qed
  have c6': "currentSnapshot ((redoPaint ^^ N) ((undoPaint ^^ N) sN)) = Some (last (seed # us))"
    by (simp only: restored c6)
  from h st c3 c4 restored c6' c7 show ?thesis
    unfolding Let_def N_def [symmetric] sN_def [symmetric] by blast
qed

lemma seeded_facts:
  "isPainting seeded" "paintHistory seeded = [url sampleImage]" "historyStep seeded = 0"
  by (simp_all add: seeded_def startPainting_def initialEditor_def Let_def)

text \<open>
  Three strokes on a seeded session: three undos reach the seed, three redos the third
  stroke, and a stroke after two undos leaves the seed, the first stroke and the new one.
\<close>

theorem undo_redo_history_witness:
  "isPainting seeded \<and> paintHistory seeded = [url sampleImage] \<and> historyStep seeded = 0 \<and>
   paintHistory (fold stroke [''s1'', ''s2'', ''s3''] seeded) =
     [url sampleImage, ''s1'', ''s2'', ''s3''] \<and>
   currentSnapshot ((undoPaint ^^ 3) (fold stroke [''s1'', ''s2'', ''s3''] seeded)) =
     Some (url sampleImage) \<and>
   currentSnapshot
     ((redoPaint ^^ 3) ((undoPaint ^^ 3) (fold stroke [''s1'', ''s2'', ''s3''] seeded))) =
     Some ''s3'' \<and>
   paintHistory
     (stroke ''v'' ((undoPaint ^^ 2) (fold stroke [''s1'', ''s2'', ''s3''] seeded))) =
     [url sampleImage, ''s1'', ''v'']"
proof -
  note t = undo_redo_history [OF seeded_facts, of "[''s1'', ''s2'', ''s3'']", unfolded Let_def]
  have l: "length [''s1'', ''s2'', ''s3''] = 3" by simp
  have m: "(2::nat) \<le> 3" by simp
  from t have a: "paintHistory (fold stroke [''s1'', ''s2'', ''s3''] seeded) =
     [url sampleImage, ''s1'', ''s2'', ''s3'']"
    by blast
  from t have b: "currentSnapshot ((undoPaint ^^ 3) (fold stroke [''s1'', ''s2'', ''s3''] seeded)) =
     Some (url sampleImage)"
    unfolding l by blast
  from t have c: "currentSnapshot
     ((redoPaint ^^ 3) ((undoPaint ^^ 3) (fold stroke [''s1'', ''s2'', ''s3''] seeded))) =
     Some (last [url sampleImage, ''s1'', ''s2'', ''s3''])"
    unfolding l by blast
  from t have "\<forall>M u. M \<le> 3 \<longrightarrow>
      paintHistory (stroke u ((undoPaint ^^ M) (fold stroke [''s1'', ''s2'', ''s3''] seeded))) =
        take (3 - M + 1) [url sampleImage, ''s1'', ''s2'', ''s3''] @ [u]"
    unfolding l by blast
  from this [rule_format, OF m, of "''v''"]
  have d: "paintHistory
     (stroke ''v'' ((undoPaint ^^ 2) (fold stroke [''s1'', ''s2'', ''s3''] seeded))) =
     [url sampleImage, ''s1'', ''v'']"
    by simp
  from seeded_facts a b c d show ?thesis by simp
qed

lemma drawing_facts:
  "isDrawing (onPaintStart seeded)" "paintHistory (onPaintStart seeded) = [url sampleImage]"
  "historyStep (onPaintStart seeded) = 0"
  by (simp_all add: onPaintStart_def seeded_facts)

text \<open>
  The invariant at a seeded session with the pointer down, where undo and redo are both
  at their bounds, and the seeding of an empty history.
\<close>

theorem history_invariant_preserved_witness:
  "historyInvariant (onPaintStart seeded) \<and>
   historyInvariant (startPainting (onPaintStart seeded)) \<and>
   historyInvariant (onPaintEnd (Some sampleCanvas) (onPaintStart seeded)) \<and>
   historyInvariant (undoPaint (onPaintStart seeded)) \<and>
   historyInvariant (redoPaint (onPaintStart seeded)) \<and>
   historyInvariant (handleSavePaint (Some sampleCanvas) (onPaintStart seeded)) \<and>
   historyInvariant (handleCancelPaint (onPaintStart seeded)) \<and>
   historyStep (onPaintStart seeded) \<le> 0 \<and> undoPaint (onPaintStart seeded) = onPaintStart seeded \<and>
   historyStep (onPaintStart seeded) \<ge> int (length (paintHistory (onPaintStart seeded))) - 1 \<and>
   redoPaint (onPaintStart seeded) = onPaintStart seeded \<and>
   originalImage (initialEditor\<lparr>originalImage := Some sampleImage\<rparr>) \<noteq> None \<and>
   paintHistory (initialEditor\<lparr>originalImage := Some sampleImage\<rparr>) = [] \<and>
   paintHistory (startPainting (initialEditor\<lparr>originalImage := Some sampleImage\<rparr>)) =
     [url sampleImage]"
proof -
  have i: "historyInvariant (onPaintStart seeded)"
    by (simp add: historyInvariant_def drawing_facts)
  have u: "historyStep (onPaintStart seeded) \<le> 0"
    and r: "historyStep (onPaintStart seeded) \<ge>
      int (length (paintHistory (onPaintStart seeded))) - 1"
    by (simp_all add: drawing_facts)
  have e: "originalImage (initialEditor\<lparr>originalImage := Some sampleImage\<rparr>) \<noteq> None \<and>
      paintHistory (initialEditor\<lparr>originalImage := Some sampleImage\<rparr>) = []"
    by (simp add: initialEditor_def)
  note t1 = history_invariant_preserved [of "onPaintStart seeded" "Some sampleCanvas"]
  note t2 = history_invariant_preserved
    [of "initialEditor\<lparr>originalImage := Some sampleImage\<rparr>" None]
  from t2 e have "paintHistory (startPainting (initialEditor\<lparr>originalImage := Some sampleImage\<rparr>)) =
     [url (the (originalImage (initialEditor\<lparr>originalImage := Some sampleImage\<rparr>)))]"
    by blast
  then have s: "paintHistory (startPainting (initialEditor\<lparr>originalImage := Some sampleImage\<rparr>)) =
     [url sampleImage]"
    by simp
  from t1 i u r e s show ?thesis by blast
qed

lemma trim_empty_iff: "trim s = [] \<longleftrightarrow> (\<forall>c\<in>set s. isWhiteSpace c)"
proof -
  have "trim s = [] \<longleftrightarrow> (\<forall>c\<in>set (dropWhile isWhiteSpace s). isWhiteSpace c)"
    by (simp add: trim_def)
  also have "\<dots> \<longleftrightarrow> dropWhile isWhiteSpace s = []"
  proof
    assume a: "\<forall>c\<in>set (dropWhile isWhiteSpace s). isWhiteSpace c"
    show "dropWhile isWhiteSpace s = []"
    proof (rule ccontr)
      assume n: "dropWhile isWhiteSpace s \<noteq> []"
      then have "\<not> isWhiteSpace (hd (dropWhile isWhiteSpace s))" by (rule hd_dropWhile)
      moreover from n have "hd (dropWhile isWhiteSpace s) \<in> set (dropWhile isWhiteSpace s)"
        by (rule hd_in_set)
      ultimately show False using a by blast
    qed
  next
    assume "dropWhile isWhiteSpace s = []"
    then show "\<forall>c\<in>set (dropWhile isWhiteSpace s). isWhiteSpace c"
      by (auto dest: set_dropWhileD)
  qed
  also have "\<dots> \<longleftrightarrow> (\<forall>c\<in>set s. isWhiteSpace c)"
    by simp
  finally show ?thesis .
qed

text \<open>
  \<^bold>\<open>C9\<close> (blank prompt). When every code unit of the prompt is white space or a line
  terminator of ECMAScript (the empty prompt included), \<^verbatim>\<open>handleGenerate\<close> does not call
  \<^verbatim>\<open>generateOrEditImage\<close> and changes nothing in the state but the toast it shows: status,
  generated images and selection are as before. With any other prompt the orchestrator is
  called with the prompt as typed.
\<close>

theorem blank_prompt_not_generated:
  "((\<forall>c\<in>set (prompt s). isWhiteSpace c) \<longrightarrow>
      snd (handleGenerate API_KEY upstream s) = None \<and>
      fst (handleGenerate API_KEY upstream s) =
        s\<lparr>toasts := toasts s @ [ToastError ''Please enter a topic for your blog image'']\<rparr> \<and>
      editorStatus (fst (handleGenerate API_KEY upstream s)) = editorStatus s \<and>
      generatedImages (fst (handleGenerate API_KEY upstream s)) = generatedImages s \<and>
      selectedImageIndex (fst (handleGenerate API_KEY upstream s)) = selectedImageIndex s) \<and>
   ((\<exists>c\<in>set (prompt s). \<not> isWhiteSpace c) \<longrightarrow>
      snd (handleGenerate API_KEY upstream s) =
        Some (generateOrEditImage API_KEY upstream (prompt s) (originalImage s)))"
proof (intro conjI impI)
  assume "\<forall>c\<in>set (prompt s). isWhiteSpace c"
  then have t: "trim (prompt s) = []" by (simp add: trim_empty_iff)
  then show "snd (handleGenerate API_KEY upstream s) = None"
    and f: "fst (handleGenerate API_KEY upstream s) =
        s\<lparr>toasts := toasts s @ [ToastError ''Please enter a topic for your blog image'']\<rparr>"
    by (simp_all add: handleGenerate_def)
  show "editorStatus (fst (handleGenerate API_KEY upstream s)) = editorStatus s"
    and "generatedImages (fst (handleGenerate API_KEY upstream s)) = generatedImages s"
    and "selectedImageIndex (fst (handleGenerate API_KEY upstream s)) = selectedImageIndex s"
    by (simp_all add: f)
next
  assume "\<exists>c\<in>set (prompt s). \<not> isWhiteSpace c"
  then have "trim (prompt s) \<noteq> []" by (simp add: trim_empty_iff)
  then show "snd (handleGenerate API_KEY upstream s) =
      Some (generateOrEditImage API_KEY upstream (prompt s) (originalImage s))"
    by (simp add: handleGenerate_def Let_def split: sum.splits)
qed

text \<open>
  A prompt of a space, a no-break space, a tab, an ideographic space, a line feed and a
  byte order mark is not generated; a prompt with a word between spaces is.
\<close>

theorem blank_prompt_not_generated_witness:
  "trim (prompt blankPrompt) = [] \<and>
   snd (handleGenerate ''k3y'' healthy blankPrompt) = None \<and>
   editorStatus (fst (handleGenerate ''k3y'' healthy blankPrompt)) = IDLE \<and>
   generatedImages (fst (handleGenerate ''k3y'' healthy blankPrompt)) = [] \<and>
   snd (handleGenerate ''k3y'' healthy (blankPrompt\<lparr>prompt := spacedSunset\<rparr>)) =
     Some (generateOrEditImage ''k3y'' healthy spacedSunset None)"
proof -
  have b: "\<forall>c\<in>set (prompt blankPrompt). isWhiteSpace c"
    by (simp add: blankPrompt_def isWhiteSpace_def)
  have n: "\<exists>c\<in>set (prompt (blankPrompt\<lparr>prompt := spacedSunset\<rparr>)). \<not> isWhiteSpace c"
    by (simp add: isWhiteSpace_def spacedSunset_def utf16_def)
  from b have t: "trim (prompt blankPrompt) = []" by (simp add: trim_empty_iff)
  from blank_prompt_not_generated [of blankPrompt "''k3y''" healthy, THEN conjunct1] b
  have 1: "snd (handleGenerate ''k3y'' healthy blankPrompt) = None"
    "editorStatus (fst (handleGenerate ''k3y'' healthy blankPrompt)) = editorStatus blankPrompt"
    "generatedImages (fst (handleGenerate ''k3y'' healthy blankPrompt)) =
       generatedImages blankPrompt"
    by blast+
  from blank_prompt_not_generated [of "blankPrompt\<lparr>prompt := spacedSunset\<rparr>" "''k3y''" healthy,
      THEN conjunct2] n
  have 2: "snd (handleGenerate ''k3y'' healthy (blankPrompt\<lparr>prompt := spacedSunset\<rparr>)) =
     Some (generateOrEditImage ''k3y'' healthy
       (prompt (blankPrompt\<lparr>prompt := spacedSunset\<rparr>))
       (originalImage (blankPrompt\<lparr>prompt := spacedSunset\<rparr>)))"
    by blast
  from t 1 2 show ?thesis
    by (simp add: blankPrompt_def initialEditor_def)
qed

section \<open>Properties of image data and resizing\<close>

lemma splitsAround_sound:
  "(a, b) \<in> set (splitsAround sep s) \<Longrightarrow> s = a @ sep @ b"
proof (induction s arbitrary: a)
  case Nil
  then show ?case by (simp split: if_splits)
next
  case (Cons c cs)
  from Cons.prems consider
    (here) "prefix sep (c # cs)" "a = []" "b = drop (length sep) (c # cs)"
    | (later) a' where "a = c # a'" "(a', b) \<in> set (splitsAround sep cs)"
    by (auto split: if_splits)
  then show ?case
  proof cases
    case here
    from here(1) obtain r where r: "c # cs = sep @ r" by (auto simp: prefix_def)
    then have "drop (length sep) (c # cs) = r" by (metis append_eq_conv_conj)
    with here r show ?thesis by simp
  next
    case later
    with Cons.IH show ?thesis by simp
  qed
qed

lemma splitsAround_complete:
  "s = a @ sep @ b \<Longrightarrow> (a, b) \<in> set (splitsAround sep s)"
proof (induction a arbitrary: s)
  case Nil
  show ?case
  proof (cases s)
    case Nil
    with Nil.prems show ?thesis by simp
  next
    case (Cons c cs)
    with Nil.prems have "prefix sep (c # cs)" "drop (length sep) (c # cs) = b"
      by (simp_all add: prefix_def)
    with Cons show ?thesis by simp
  qed
next
  case (Cons x a)
  then have "(a, b) \<in> set (splitsAround sep (a @ sep @ b))" by simp
  with Cons.prems show ?case by force
qed

lemma matchDataUrl_Some:
  assumes "matchDataUrl s = Some (m, d)"
  shows "s = ''data:'' @ m @ '';base64,'' @ d \<and> dotPlus m \<and> dotPlus d"
proof -
  from assms have p: "prefix ''data:'' s" by (simp add: matchDataUrl_def split: if_splits)
  then obtain r where r: "s = ''data:'' @ r" by (auto simp: prefix_def)
  then have dr: "drop 5 s = r" by simp
  define cands where
    "cands = filter (\<lambda>(a, b). dotPlus a \<and> dotPlus b) (rev (splitsAround '';base64,'' r))"
  from assms p dr have "\<exists>rest. cands = (m, d) # rest"
    by (auto simp: matchDataUrl_def cands_def split: list.splits)
  then have "(m, d) \<in> set cands" by auto
  then have "(m, d) \<in> set (splitsAround '';base64,'' r)" "dotPlus m" "dotPlus d"
    by (auto simp: cands_def)
  with r show ?thesis by (auto dest: splitsAround_sound)
qed

lemma matchDataUrl_data:
  "matchDataUrl (''data:'' @ r) =
     (case filter (\<lambda>(a, b). dotPlus a \<and> dotPlus b) (rev (splitsAround '';base64,'' r)) of
        [] \<Rightarrow> None
      | (a, b) # _ \<Rightarrow> Some (a, b))"
  by (simp add: matchDataUrl_def)

lemma matchDataUrl_matches:
  assumes "dotPlus m" "dotPlus d"
  shows "\<exists>m' d'. matchDataUrl (''data:'' @ m @ '';base64,'' @ d) = Some (m', d')"
proof -
  define r where "r = m @ '';base64,'' @ d"
  define cands where
    "cands = filter (\<lambda>(a, b). dotPlus a \<and> dotPlus b) (rev (splitsAround '';base64,'' r))"
  have "(m, d) \<in> set (splitsAround '';base64,'' r)"
    unfolding r_def by (rule splitsAround_complete) simp
  with assms have "(m, d) \<in> set cands" by (simp add: cands_def)
  then obtain x rest where c: "cands = x # rest" by (cases cands) auto
  obtain m' d' where x: "x = (m', d')" by (cases x)
  have "matchDataUrl (''data:'' @ r) = Some (m', d')"
    unfolding matchDataUrl_data cands_def [symmetric] c x by simp
  then show ?thesis unfolding r_def by blast
qed

lemma single_url:
  "generateSingleRequest ai ps = Inr img \<Longrightarrow>
   url img = ''data:'' @ mimeType img @ '';base64,'' @ data img"
  unfolding generateSingleRequest_def Let_def
  by (cases "ai ''gemini-2.5-flash-image'' ps")
    (auto split: if_splits option.splits)

lemma single_found:
  assumes "ai ''gemini-2.5-flash-image'' ps = Inr response"
    and "candidates response = Some (c # cs)"
    and "content c = Some (Content (Some pl))"
    and "find (\<lambda>p. inlineData p \<noteq> None) pl = Some (ResponsePart (Some (Blob mt d)))"
  shows "generateSingleRequest ai ps =
     Inr \<lparr>data = d,
          mimeType = (if mt = None \<or> mt = Some [] then ''image/png'' else the mt),
          url = ''data:'' @ (if mt = None \<or> mt = Some [] then ''image/png'' else the mt) @
                '';base64,'' @ d\<rparr>"
proof -
  from assms(4) have "pl \<noteq> []" by auto
  with assms show ?thesis
    by (simp add: generateSingleRequest_def Let_def del: not_None_eq)
qed

lemma matched_url:
  assumes "matchDataUrl u = Some (m, d)" and "img = \<lparr>data = d, mimeType = m, url = u\<rparr>"
  shows "url img = ''data:'' @ mimeType img @ '';base64,'' @ data img"
proof -
  from assms(1) have "u = ''data:'' @ m @ '';base64,'' @ d"
    using matchDataUrl_Some by blast
  with assms(2) show ?thesis by simp
qed

lemma file_url:
  assumes "fileToImageData reader = Inr img"
  shows "url img = ''data:'' @ mimeType img @ '';base64,'' @ data img"
proof -
  from assms obtain result m d where
    "matchDataUrl result = Some (m, d)" "img = \<lparr>data = d, mimeType = m, url = result\<rparr>"
    by (auto simp: fileToImageData_def split: sum.splits option.splits)
  then show ?thesis by (rule matched_url)
qed

lemma crop_url:
  assumes "getCroppedImg loadError hasContext dataUrl = Inr img"
  shows "url img = ''data:'' @ mimeType img @ '';base64,'' @ data img"
proof -
  from assms obtain m d where
    "matchDataUrl dataUrl = Some (m, d)" "img = \<lparr>data = d, mimeType = m, url = dataUrl\<rparr>"
    by (auto simp: getCroppedImg_def split: option.splits if_splits)
  then show ?thesis by (rule matched_url)
qed

lemma save_url:
  assumes "handleSavePaint canvas s \<noteq> s"
    and "originalImage (handleSavePaint canvas s) = Some img"
  shows "url img = ''data:'' @ mimeType img @ '';base64,'' @ data img"
proof -
  from assms obtain u m d where
    "matchDataUrl u = Some (m, d)" "img = \<lparr>data = d, mimeType = m, url = u\<rparr>"
    by (auto simp: handleSavePaint_def Let_def split: option.splits)
  then show ?thesis by (rule matched_url)
qed

text \<open>
  \<^bold>\<open>C10\<close> (display reference). Every \<^verbatim>\<open>ImageData\<close> the program constructs, in
  \<^verbatim>\<open>generateSingleRequest\<close>, \<^verbatim>\<open>fileToImageData\<close>, \<^verbatim>\<open>getCroppedImg\<close> and
  \<^verbatim>\<open>handleSavePaint\<close>, has \<open>url = "data:" + mimeType + ";base64," + data\<close>. When the
  first upstream part with inline data has no media type (or an empty one),
  \<^verbatim>\<open>generateSingleRequest\<close> uses \<^verbatim>\<open>image/png\<close>.
\<close>

theorem image_data_url_invariant:
  "(generateSingleRequest ai ps = Inr img \<longrightarrow>
      url img = ''data:'' @ mimeType img @ '';base64,'' @ data img) \<and>
   (fileToImageData reader = Inr img \<longrightarrow>
      url img = ''data:'' @ mimeType img @ '';base64,'' @ data img) \<and>
   (getCroppedImg loadError hasContext dataUrl = Inr img \<longrightarrow>
      url img = ''data:'' @ mimeType img @ '';base64,'' @ data img) \<and>
   (handleSavePaint canvas s \<noteq> s \<and> originalImage (handleSavePaint canvas s) = Some img \<longrightarrow>
      url img = ''data:'' @ mimeType img @ '';base64,'' @ data img) \<and>
   (\<forall>response c cs pl mt d.
      ai ''gemini-2.5-flash-image'' ps = Inr response \<and>
      candidates response = Some (c # cs) \<and>
      content c = Some (Content (Some pl)) \<and>
      find (\<lambda>p. inlineData p \<noteq> None) pl = Some (ResponsePart (Some (Blob mt d))) \<longrightarrow>
      generateSingleRequest ai ps =
        Inr \<lparr>data = d,
             mimeType = (if mt = None \<or> mt = Some [] then ''image/png'' else the mt),
             url = ''data:'' @ (if mt = None \<or> mt = Some [] then ''image/png'' else the mt) @
                   '';base64,'' @ d\<rparr>)"
  using single_url [of ai ps img] file_url [of reader img]
    crop_url [of loadError hasContext dataUrl img] save_url [of canvas s img]
    single_found [of ai ps]
  by blast

lemma match_jpegUrl: "matchDataUrl jpegUrl = Some (''image/jpeg'', ''/9j/4AAQSkZJRg=='')"
  by (simp add: matchDataUrl_def jpegUrl_def dotPlus_def isLineTerminator_def)

lemma match_greedy:
  "matchDataUrl ''data:a;base64,b;base64,c'' = Some (''a;base64,b'', ''c'')"
  by (simp add: matchDataUrl_def dotPlus_def isLineTerminator_def)

text \<open>
  An upstream part without media type, a JPEG data URL read from a file and produced by a
  crop, and a saved paint canvas.
\<close>

theorem image_data_url_invariant_witness:
  "generateSingleRequest (healthy 0 0) [] = Inr (picture ''QUFB'') \<and>
   mimeType (picture ''QUFB'') = ''image/png'' \<and>
   url (picture ''QUFB'') =
     ''data:'' @ mimeType (picture ''QUFB'') @ '';base64,'' @ data (picture ''QUFB'') \<and>
   fileToImageData (Inr jpegUrl) = Inr jpeg \<and>
   getCroppedImg None True jpegUrl = Inr jpeg \<and>
   url jpeg = ''data:'' @ mimeType jpeg @ '';base64,'' @ data jpeg \<and>
   handleSavePaint (Some sampleCanvas) seeded \<noteq> seeded \<and>
   originalImage (handleSavePaint (Some sampleCanvas) seeded) = Some pngB \<and>
   url pngB = ''data:'' @ mimeType pngB @ '';base64,'' @ data pngB"
proof -
  have h: "healthy 0 0 ''gemini-2.5-flash-image'' [] = Inr (pictureResponse ''QUFB'') \<and>
      candidates (pictureResponse ''QUFB'') =
        Some (Candidate (Some (Content (Some [ResponsePart (Some (Blob None ''QUFB''))]))) # []) \<and>
      content (Candidate (Some (Content (Some [ResponsePart (Some (Blob None ''QUFB''))])))) =
        Some (Content (Some [ResponsePart (Some (Blob None ''QUFB''))])) \<and>
      find (\<lambda>p. inlineData p \<noteq> None) [ResponsePart (Some (Blob None ''QUFB''))] =
        Some (ResponsePart (Some (Blob None ''QUFB'')))"
    by (simp add: healthy_def pictureResponse_def)
  from image_data_url_invariant [where ai = "healthy 0 0" and ps = "[]", THEN conjunct2,
      THEN conjunct2, THEN conjunct2, THEN conjunct2, rule_format, OF h]
  have g: "generateSingleRequest (healthy 0 0) [] = Inr (picture ''QUFB'')"
    by (simp add: picture_def)
  from image_data_url_invariant [where ai = "healthy 0 0" and ps = "[]"
      and img = "picture ''QUFB''", THEN conjunct1] g
  have g': "url (picture ''QUFB'') =
     ''data:'' @ mimeType (picture ''QUFB'') @ '';base64,'' @ data (picture ''QUFB'')"
    by blast
  have f: "fileToImageData (Inr jpegUrl) = Inr jpeg"
    by (simp add: fileToImageData_def match_jpegUrl jpeg_def)
  have c: "getCroppedImg None True jpegUrl = Inr jpeg"
    by (simp add: getCroppedImg_def match_jpegUrl jpeg_def)
  from image_data_url_invariant [where reader = "Inr jpegUrl" and img = jpeg,
      THEN conjunct2, THEN conjunct1] f
  have f': "url jpeg = ''data:'' @ mimeType jpeg @ '';base64,'' @ data jpeg"
    by blast
  have m: "matchDataUrl ''data:image/png;base64,QkJC'' = Some (''image/png'', ''QkJC'')"
    by (simp add: matchDataUrl_def dotPlus_def isLineTerminator_def)
  have sv: "handleSavePaint (Some sampleCanvas) seeded =
      seeded\<lparr>originalImage := Some pngB, isPainting := False, paintHistory := [],
        historyStep := 0, toasts := [ToastSuccess ''Banner updated!'']\<rparr>"
    by (simp add: handleSavePaint_def seeded_def startPainting_def initialEditor_def Let_def
        sampleCanvas_def sampleImage_def m pngB_def)
  have s1: "handleSavePaint (Some sampleCanvas) seeded \<noteq> seeded"
  proof
    assume "handleSavePaint (Some sampleCanvas) seeded = seeded"
    then have "isPainting (handleSavePaint (Some sampleCanvas) seeded) = isPainting seeded"
      by simp
    then show False by (simp add: sv seeded_facts)
  qed
  have s2: "originalImage (handleSavePaint (Some sampleCanvas) seeded) = Some pngB"
    by (simp add: sv)
  from image_data_url_invariant [where canvas = "Some sampleCanvas" and s = seeded
      and img = pngB, THEN conjunct2, THEN conjunct2, THEN conjunct2, THEN conjunct1] s1 s2
  have s3: "url pngB = ''data:'' @ mimeType pngB @ '';base64,'' @ data pngB"
    by blast
  have p: "mimeType (picture ''QUFB'') = ''image/png''" by (simp add: picture_def)
  from g p g' f c f' s1 s2 s3 show ?thesis by blast
qed









lemma wider_source:
  fixes a b tw th :: real
  assumes "0 < a" "0 < b" "0 < tw" "0 < th" "a / b > tw / th"
  shows "tw < th * (a / b)" "tw / (a / b) < th"
proof -
  from assms(4,5) have "th * (tw / th) < th * (a / b)" by (simp only: mult_strict_left_mono)
  with assms(4) show 1: "tw < th * (a / b)" by simp
  from assms(1,2) have ab: "0 < a / b" by simp
  from 1 ab show "tw / (a / b) < th" by (simp only: pos_divide_less_eq)
qed

lemma narrower_source:
  fixes a b tw th :: real
  assumes "0 < a" "0 < b" "0 < tw" "0 < th" "\<not> a / b > tw / th"
  shows "th * (a / b) \<le> tw" "th \<le> tw / (a / b)"
proof -
  from assms(5) have le: "a / b \<le> tw / th" by simp
  with assms(4) have "th * (a / b) \<le> th * (tw / th)" by (simp only: mult_left_mono less_imp_le)
  with assms(4) show 1: "th * (a / b) \<le> tw" by simp
  from assms(1,2) have ab: "0 < a / b" by simp
  from 1 have "th * (a / b) \<le> tw" .
  with ab show "th \<le> tw / (a / b)" by (simp only: pos_le_divide_eq)
qed

lemma same_aspect:
  fixes a b tw th :: real
  assumes "0 < a" "0 < b" "0 < tw" "0 < th" "a / b = tw / th"
  shows "th * (a / b) = tw" "tw / (a / b) = th"
  using assms by simp_all

lemma narrower_strict:
  fixes a b tw th :: real
  assumes "0 < a" "0 < b" "0 < tw" "0 < th" "a / b < tw / th"
  shows "th * (a / b) < tw"
proof -
  from assms(4,5) have "th * (a / b) < th * (tw / th)" by (simp only: mult_strict_left_mono)
  with assms(4) show ?thesis by simp
qed

lemma uniform_scale:
  fixes a b tw th :: real
  assumes "0 < a" "0 < b"
  shows "th * (a / b) / a = th / b" "tw / a = tw / (a / b) / b"
  using assms by simp_all

lemma resize_stretch:
  "resizeImage (Inr (w, h)) True tw th stretch =
     Inr \<lparr>canvasWidth = tw, canvasHeight = th,
          calls = [FillRect ''white'' 0 0 tw th, DrawImage 0 0 tw th]\<rparr>"
  by (simp add: resizeImage_def Let_def)

lemma resize_by_height:
  assumes "fit = cover \<and> real w / real h > tw / th \<or>
           fit = contain \<and> \<not> real w / real h > tw / th"
  shows "resizeImage (Inr (w, h)) True tw th fit =
     Inr \<lparr>canvasWidth = tw, canvasHeight = th,
          calls = [FillRect ''white'' 0 0 tw th,
                   DrawImage ((tw - th * (real w / real h)) / 2) 0
                     (th * (real w / real h)) th]\<rparr>"
  using assms by (auto simp: resizeImage_def Let_def)

lemma resize_by_width:
  assumes "fit = cover \<and> \<not> real w / real h > tw / th \<or>
           fit = contain \<and> real w / real h > tw / th"
  shows "resizeImage (Inr (w, h)) True tw th fit =
     Inr \<lparr>canvasWidth = tw, canvasHeight = th,
          calls = [FillRect ''white'' 0 0 tw th,
                   DrawImage 0 ((th - tw / (real w / real h)) / 2) tw
                     (tw / (real w / real h))]\<rparr>"
  using assms by (auto simp: resizeImage_def Let_def)

text \<open>
  \<^bold>\<open>C6\<close>, amended (fit modes). For a loaded image and a target rectangle of positive
  dimensions, the canvas is filled white and the image is drawn once. With \<open>stretch\<close> it
  is drawn at exactly the target rectangle, whatever its own dimensions. With \<open>cover\<close>
  and \<open>contain\<close> it is scaled uniformly and centred; with \<open>cover\<close> the drawn rectangle
  contains the canvas; with \<open>contain\<close> it lies within the canvas, with a margin of
  background on one axis when the aspect ratios differ and none when they are equal.
\<close>

theorem resize_fit_geometry:
  assumes "0 < w" and "0 < h" and "0 < tw" and "0 < th"
  shows
    "\<exists>x y dw dh.
       resizeImage (Inr (w, h)) True tw th fit =
         Inr \<lparr>canvasWidth = tw, canvasHeight = th,
              calls = [FillRect ''white'' 0 0 tw th, DrawImage x y dw dh]\<rparr> \<and>
       (fit = stretch \<longrightarrow> x = 0 \<and> y = 0 \<and> dw = tw \<and> dh = th) \<and>
       (fit \<noteq> stretch \<longrightarrow>
          dw / real w = dh / real h \<and> x + dw / 2 = tw / 2 \<and> y + dh / 2 = th / 2) \<and>
       (fit = cover \<longrightarrow> x \<le> 0 \<and> y \<le> 0 \<and> tw \<le> x + dw \<and> th \<le> y + dh) \<and>
       (fit = contain \<longrightarrow>
          0 \<le> x \<and> 0 \<le> y \<and> x + dw \<le> tw \<and> y + dh \<le> th \<and>
          (real w / real h \<noteq> tw / th \<longrightarrow> 0 < x \<or> 0 < y) \<and>
          (real w / real h = tw / th \<longrightarrow> x = 0 \<and> y = 0 \<and> dw = tw \<and> dh = th))"
proof -
  define a where "a = real w"
  define b where "b = real h"
  from assms have pos: "0 < a" "0 < b" "0 < tw" "0 < th" by (simp_all add: a_def b_def)
  note us = uniform_scale [OF pos(1,2)]
  show ?thesis
  proof (cases fit)
    case stretch
    show ?thesis
      unfolding stretch resize_stretch by simp
  next
    case cover
    show ?thesis
    proof (cases "a / b > tw / th")
      case True
      then have r: "resizeImage (Inr (w, h)) True tw th fit =
          Inr \<lparr>canvasWidth = tw, canvasHeight = th,
               calls = [FillRect ''white'' 0 0 tw th,
                        DrawImage ((tw - th * (a / b)) / 2) 0 (th * (a / b)) th]\<rparr>"
        unfolding a_def b_def using cover by (intro resize_by_height) simp
      from wider_source (1) [OF pos True] have g: "tw < th * (a / b)" .
      have u: "th * (a / b) / a = th / b" by (rule us)
      define dw where "dw = th * (a / b)"
      from g u cover show ?thesis
        unfolding r a_def [symmetric] b_def [symmetric] dw_def [symmetric]
        by (intro exI [of _ "(tw - dw) / 2"] exI [of _ 0] exI [of _ dw] exI [of _ th])
          (simp add: field_simps)
    next
      case False
      then have r: "resizeImage (Inr (w, h)) True tw th fit =
          Inr \<lparr>canvasWidth = tw, canvasHeight = th,
               calls = [FillRect ''white'' 0 0 tw th,
                        DrawImage 0 ((th - tw / (a / b)) / 2) tw (tw / (a / b))]\<rparr>"
        unfolding a_def b_def using cover by (intro resize_by_width) simp
      from narrower_source (2) [OF pos False] have g: "th \<le> tw / (a / b)" .
      have u: "tw / a = tw / (a / b) / b" by (rule us)
      define dh where "dh = tw / (a / b)"
      from g u cover show ?thesis
        unfolding r a_def [symmetric] b_def [symmetric] dh_def [symmetric]
        by (intro exI [of _ 0] exI [of _ "(th - dh) / 2"] exI [of _ tw] exI [of _ dh])
          (simp add: field_simps)
    qed
  next
    case contain
    show ?thesis
    proof (cases "a / b > tw / th")
      case True
      then have r: "resizeImage (Inr (w, h)) True tw th fit =
          Inr \<lparr>canvasWidth = tw, canvasHeight = th,
               calls = [FillRect ''white'' 0 0 tw th,
                        DrawImage 0 ((th - tw / (a / b)) / 2) tw (tw / (a / b))]\<rparr>"
        unfolding a_def b_def using contain by (intro resize_by_width) simp
      from wider_source (2) [OF pos True] have g: "tw / (a / b) < th" .
      have u: "tw / a = tw / (a / b) / b" by (rule us)
      define dh where "dh = tw / (a / b)"
      from True have ne: "a / b \<noteq> tw / th" by simp
      from g u contain ne show ?thesis
        unfolding r a_def [symmetric] b_def [symmetric] dh_def [symmetric]
        by (intro exI [of _ 0] exI [of _ "(th - dh) / 2"] exI [of _ tw] exI [of _ dh])
          (simp add: field_simps)
    next
      case False
      then have r: "resizeImage (Inr (w, h)) True tw th fit =
          Inr \<lparr>canvasWidth = tw, canvasHeight = th,
               calls = [FillRect ''white'' 0 0 tw th,
                        DrawImage ((tw - th * (a / b)) / 2) 0 (th * (a / b)) th]\<rparr>"
        unfolding a_def b_def using contain by (intro resize_by_height) simp
      from narrower_source (1) [OF pos False] have g: "th * (a / b) \<le> tw" .
      have u: "th * (a / b) / a = th / b" by (rule us)
      have strict: "th * (a / b) < tw" if "a / b \<noteq> tw / th"
        using that False narrower_strict [OF pos, of ] by simp
      have same: "th * (a / b) = tw" if "a / b = tw / th"
        using same_aspect (1) [OF pos that] .
      define dw where "dw = th * (a / b)"
      from g u contain strict same show ?thesis
        unfolding r a_def [symmetric] b_def [symmetric] dw_def [symmetric]
        by (intro exI [of _ "(tw - dw) / 2"] exI [of _ 0] exI [of _ dw] exI [of _ th])
          (auto simp: field_simps)
    qed
  qed
qed

text \<open>
  \<^bold>\<open>C6\<close> as stated fails for \<open>contain\<close>: a 200 x 100 source on a 100 x 50 target is
  drawn over the whole canvas, with no background left on either axis.
\<close>

theorem contain_same_aspect_no_background:
  "resizeImage (Inr (200, 100)) True 100 50 contain =
     Inr \<lparr>canvasWidth = 100, canvasHeight = 50,
          calls = [FillRect ''white'' 0 0 100 50, DrawImage 0 0 100 50]\<rparr> \<and>
   \<not> (\<exists>x y dw dh.
        resizeImage (Inr (200, 100)) True 100 50 contain =
          Inr \<lparr>canvasWidth = 100, canvasHeight = 50,
               calls = [FillRect ''white'' 0 0 100 50, DrawImage x y dw dh]\<rparr> \<and>
        (0 < x \<or> 0 < y \<or> x + dw < 100 \<or> y + dh < 50))"
  by (simp add: resizeImage_def Let_def)

text \<open>
  An 800 x 600 source on a 1200 x 675 target in the three modes.
\<close>

theorem resize_fit_geometry_witness:
  "(0::nat) < 800 \<and> (0::nat) < 600 \<and> (0::real) < 1200 \<and> (0::real) < 675 \<and>
   resizeImage (Inr (800, 600)) True 1200 675 cover =
     Inr \<lparr>canvasWidth = 1200, canvasHeight = 675,
          calls = [FillRect ''white'' 0 0 1200 675, DrawImage 0 (- 225 / 2) 1200 900]\<rparr> \<and>
   resizeImage (Inr (800, 600)) True 1200 675 contain =
     Inr \<lparr>canvasWidth = 1200, canvasHeight = 675,
          calls = [FillRect ''white'' 0 0 1200 675, DrawImage 150 0 900 675]\<rparr> \<and>
   resizeImage (Inr (800, 600)) True 1200 675 stretch =
     Inr \<lparr>canvasWidth = 1200, canvasHeight = 675,
          calls = [FillRect ''white'' 0 0 1200 675, DrawImage 0 0 1200 675]\<rparr> \<and>
   (\<exists>x y dw dh.
      resizeImage (Inr (800, 600)) True 1200 675 contain =
        Inr \<lparr>canvasWidth = 1200, canvasHeight = 675,
             calls = [FillRect ''white'' 0 0 1200 675, DrawImage x y dw dh]\<rparr> \<and>
      0 \<le> x \<and> 0 \<le> y \<and> x + dw \<le> 1200 \<and> y + dh \<le> 675 \<and> (0 < x \<or> 0 < y)) \<and>
   (\<exists>x y dw dh.
      resizeImage (Inr (800, 600)) True 1200 675 cover =
        Inr \<lparr>canvasWidth = 1200, canvasHeight = 675,
             calls = [FillRect ''white'' 0 0 1200 675, DrawImage x y dw dh]\<rparr> \<and>
      x \<le> 0 \<and> y \<le> 0 \<and> 1200 \<le> x + dw \<and> 675 \<le> y + dh)"
proof -
  have p: "(0::nat) < 800" "(0::nat) < 600" "(0::real) < 1200" "(0::real) < 675" by simp_all
  have ne: "real 800 / real 600 \<noteq> (1200::real) / 675" by simp
  have c: "resizeImage (Inr (800, 600)) True 1200 675 cover =
     Inr \<lparr>canvasWidth = 1200, canvasHeight = 675,
          calls = [FillRect ''white'' 0 0 1200 675, DrawImage 0 (- 225 / 2) 1200 900]\<rparr>"
    by (simp add: resizeImage_def Let_def)
  have n: "resizeImage (Inr (800, 600)) True 1200 675 contain =
     Inr \<lparr>canvasWidth = 1200, canvasHeight = 675,
          calls = [FillRect ''white'' 0 0 1200 675, DrawImage 150 0 900 675]\<rparr>"
    by (simp add: resizeImage_def Let_def)
  have s: "resizeImage (Inr (800, 600)) True 1200 675 stretch =
     Inr \<lparr>canvasWidth = 1200, canvasHeight = 675,
          calls = [FillRect ''white'' 0 0 1200 675, DrawImage 0 0 1200 675]\<rparr>"
    by (simp add: resizeImage_def Let_def)
  from resize_fit_geometry [OF p, of contain] ne
  have tn: "\<exists>x y dw dh.
      resizeImage (Inr (800, 600)) True 1200 675 contain =
        Inr \<lparr>canvasWidth = 1200, canvasHeight = 675,
             calls = [FillRect ''white'' 0 0 1200 675, DrawImage x y dw dh]\<rparr> \<and>
      0 \<le> x \<and> 0 \<le> y \<and> x + dw \<le> 1200 \<and> y + dh \<le> 675 \<and> (0 < x \<or> 0 < y)"
    by blast
  from resize_fit_geometry [OF p, of cover]
  have tc: "\<exists>x y dw dh.
      resizeImage (Inr (800, 600)) True 1200 675 cover =
        Inr \<lparr>canvasWidth = 1200, canvasHeight = 675,
             calls = [FillRect ''white'' 0 0 1200 675, DrawImage x y dw dh]\<rparr> \<and>
      x \<le> 0 \<and> y \<le> 0 \<and> 1200 \<le> x + dw \<and> 675 \<le> y + dh"
    by blast
  from p c n s tn tc show ?thesis by blast
qed

end
